theory Spec2Isabelle
  imports Main "HOL-Library.Sublist"
begin

section \<open>exaMCP: the prompt layer and the analysis cache boundary\<close>

text \<open>
  A shallow embedding of the Go sources \<^verbatim>\<open>backend/service/mcp/prompt_generator.go\<close>,
  the advanced prompt generator (package \<^verbatim>\<open>mcp\<close>) and \<^verbatim>\<open>App.AnalyzeExcelFile\<close> of
  \<^verbatim>\<open>backend/main.go\<close>.

  Go strings are byte sequences and are modelled as \<^typ>\<open>string\<close> (a list of 8-bit
  characters); \<^verbatim>\<open>len\<close> is \<^const>\<open>length\<close>. Go's \<^verbatim>\<open>int\<close> is modelled as \<^typ>\<open>int\<close>:
  the arithmetic below stays inside the 64-bit range on every input (comparisons, a
  non-negative quotient minus one, loop counters bounded by a length, scores bounded by
  the length of the requirement), so wrap-around plays no part.
  A run-time panic that nothing recovers is a value of type \<open>panic\<close>; a function that
  can panic returns \<open>panic + result\<close>.
\<close>

subsection \<open>Run-time panics\<close>

datatype panic =
  SliceBoundsOutOfRange int   \<comment> \<open>\<^verbatim>\<open>s[:n]\<close> with \<^verbatim>\<open>n < 0\<close>\<close>
  | MakeSliceLenOutOfRange    \<comment> \<open>\<^verbatim>\<open>make([]T, n)\<close> with \<^verbatim>\<open>n < 0\<close>\<close>

subsection \<open>\<^verbatim>\<open>limitSampleData\<close>\<close>

text \<open>
  \<^verbatim>\<open>
  func limitSampleData(sampleData [][]string, maxRows int) [][]string {
      if len(sampleData) <= maxRows { return sampleData }
      return sampleData[:maxRows]
  }
  \<close>
  The slice expression panics when \<^verbatim>\<open>maxRows\<close> is negative; it cannot exceed the length
  on the second branch.
\<close>

definition limitSampleData :: "string list list \<Rightarrow> int \<Rightarrow> panic + string list list" where
  "limitSampleData sampleData maxRows =
     (if int (length sampleData) \<le> maxRows then Inr sampleData
      else if maxRows < 0 then Inl (SliceBoundsOutOfRange maxRows)
      else Inr (take (nat maxRows) sampleData))"

subsection \<open>Column letters\<close>

text \<open>
  \<^verbatim>\<open>
  func columnLetterFromIndex(index int) string {
      result := ""
      for index >= 0 {
          remainder := index % 26
          result = string(rune('A'+remainder)) + result
          index = index/26 - 1
      }
      return result
  }
  \<close>
  The loop body runs only for \<^verbatim>\<open>index >= 0\<close>, where Go's truncating \<^verbatim>\<open>%\<close> and \<^verbatim>\<open>/\<close>
  agree with \<open>mod\<close> and \<open>div\<close>. \<^verbatim>\<open>'A'\<close> is 65 and the rune stays below 128, so the
  conversion to a string yields one byte.
\<close>

function columnLetterFromIndex_loop :: "int \<Rightarrow> string \<Rightarrow> string" where
  "columnLetterFromIndex_loop index result =
     (if index \<ge> 0
      then (let remainder = index mod 26
            in columnLetterFromIndex_loop (index div 26 - 1) (char_of (65 + remainder) # result))
      else result)"
  by pat_completeness auto
termination
  by (relation "measure (\<lambda>(index, result). nat (index + 1))") auto

definition columnLetterFromIndex :: "int \<Rightarrow> string" where
  "columnLetterFromIndex index = columnLetterFromIndex_loop index []"

text \<open>
  \<^verbatim>\<open>
  func generateColumnLetters(count int) []string {
      letters := make([]string, count)
      for i := 0; i < count; i++ { letters[i] = columnLetterFromIndex(i) }
      return letters
  }
  \<close>
  \<^verbatim>\<open>make\<close> panics on a negative length. Inside the loop \<open>0 \<le> i < count\<close>, so the index
  is in range.
\<close>

function generateColumnLetters_loop :: "int \<Rightarrow> int \<Rightarrow> string list \<Rightarrow> string list" where
  "generateColumnLetters_loop i count letters =
     (if i < count
      then generateColumnLetters_loop (i + 1) count (letters[nat i := columnLetterFromIndex i])
      else letters)"
  by pat_completeness auto
termination
  by (relation "measure (\<lambda>(i, count, letters). nat (count - i))") auto

definition generateColumnLetters :: "int \<Rightarrow> panic + string list" where
  "generateColumnLetters count =
     (if count < 0 then Inl MakeSliceLenOutOfRange
      else Inr (generateColumnLetters_loop 0 count (replicate (nat count) [])))"

text \<open>
  The spreadsheet convention, for comparison with the code: a column name is a
  non-empty word over the letters A to Z, read as a numeral in bijective base 26 with
  A = 1, ..., Z = 26, most significant letter first; the columns are numbered from 1,
  so the column of 0-based index \<open>i\<close> is the one whose numeral is \<open>i + 1\<close>.
\<close>

definition is_column_letter :: "char \<Rightarrow> bool" where
  "is_column_letter c = (65 \<le> (of_char c :: nat) \<and> (of_char c :: nat) \<le> 90)"

definition letter_digit :: "char \<Rightarrow> nat" where
  "letter_digit c = of_char c - 64"

definition column_number :: "string \<Rightarrow> nat" where
  "column_number name = foldl (\<lambda>acc c. 26 * acc + letter_digit c) 0 name"

subsection \<open>The library functions the prompt layer calls\<close>

text \<open>
  \<^verbatim>\<open>strings.Contains(s, substr)\<close>: \<open>substr\<close> occurs in \<open>s\<close> as a contiguous block.

  \<^verbatim>\<open>strings.Count(s, substr)\<close>: the number of non-overlapping occurrences, found from
  the left. For an empty \<open>substr\<close> Go returns the number of code points plus one,
  which is the number of bytes plus one on ASCII text; the program never passes an
  empty pattern.

  \<^verbatim>\<open>regexp.MustCompile(pattern).MatchString(s)\<close>: the seven patterns of
  \<open>featurePatterns\<close> are built from letters, spaces, one hyphen and the operator
  \<^verbatim>\<open>|\<close> only, so each is an alternation of literal words and matches exactly when
  one of its alternatives occurs in \<open>s\<close>. \<open>alternatives\<close> splits the pattern at the
  bars.

  \<^verbatim>\<open>strings.ToLower\<close> is a parameter \<open>ToLower\<close> of the functions that call it: what is
  proved holds for every such function. \<open>ascii_ToLower\<close> is its behaviour on ASCII
  text (A to Z become a to z), used to run the functions on concrete ASCII inputs.
\<close>

definition Contains :: "string \<Rightarrow> string \<Rightarrow> bool" where
  "Contains s substr = sublist substr s"

function Count :: "string \<Rightarrow> string \<Rightarrow> int" where
  "Count s substr =
     (if substr = [] then int (length s) + 1
      else if length s < length substr then 0
      else if prefix substr s then 1 + Count (drop (length substr) s) substr
      else Count (tl s) substr)"
  by pat_completeness auto
termination
  by (relation "measure (\<lambda>(s, substr). length s)") (auto simp: less_Suc_eq_le intro: diff_less)

fun alternatives_from :: "string \<Rightarrow> string \<Rightarrow> string list" where
  "alternatives_from cur [] = [cur]"
| "alternatives_from cur (c # cs) =
     (if c = CHR ''|'' then cur # alternatives_from [] cs
      else alternatives_from (cur @ [c]) cs)"

definition alternatives :: "string \<Rightarrow> string list" where
  "alternatives pattern = alternatives_from [] pattern"

definition MatchString :: "string \<Rightarrow> string \<Rightarrow> bool" where
  "MatchString pattern s = list_ex (\<lambda>alt. Contains s alt) (alternatives pattern)"

definition ascii_ToLower :: "string \<Rightarrow> string" where
  "ascii_ToLower s =
     map (\<lambda>c. if 65 \<le> (of_char c :: nat) \<and> (of_char c :: nat) \<le> 90
               then char_of ((of_char c :: nat) + 32) else c) s"

subsection \<open>The data model of package \<^verbatim>\<open>mcp\<close>\<close>

record Relationship =
  TargetRange :: string
  Type :: string
  SourceField :: string
  TargetField :: string

record DataRange =
  RangeAddress :: string
  Headers :: "string list"
  DataRows :: int
  DataTypes :: "string \<rightharpoonup> string"
  SampleData :: "string list list"
  Description :: string
  HasHeaders :: bool
  SheetName :: string
  Relationships :: "Relationship list"

record TaskClassification =
  PrimaryType :: string
  SecondaryType :: string
  Features :: "string list"
  Complexity :: string
  Keywords :: "string list"

subsection \<open>\<^verbatim>\<open>extractKeywords\<close>\<close>

text \<open>
  \<^verbatim>\<open>
  keywords := []string{}
  lowerReq := strings.ToLower(requirement)
  for _, term := range technicalTerms {
      if strings.Contains(lowerReq, term) { keywords = append(keywords, term) }
  }
  uniqueKeywords := []string{}
  seen := make(map[string]bool)
  for _, kw := range keywords {
      if !seen[kw] { uniqueKeywords = append(uniqueKeywords, kw); seen[kw] = true }
  }
  if len(uniqueKeywords) > 10 { uniqueKeywords = uniqueKeywords[:10] }
  return uniqueKeywords
  \<close>
\<close>

definition technicalTerms :: "string list" where
  "technicalTerms =
     [''filter'', ''sort'', ''report'', ''chart'', ''data'', ''column'', ''row'', ''cell'',
      ''sheet'', ''workbook'', ''range'', ''formula'', ''function'', ''macro'', ''calculate'',
      ''format'', ''conditional'', ''pivot'', ''table'', ''validation'', ''userform'',
      ''button'', ''combobox'', ''textbox'', ''query'', ''sql'', ''export'', ''import'',
      ''sum'', ''average'', ''count'', ''unique'', ''duplicate'', ''error'', ''loop'']"

fun extractKeywords_collect :: "string \<Rightarrow> string list \<Rightarrow> string list \<Rightarrow> string list" where
  "extractKeywords_collect lowerReq [] keywords = keywords"
| "extractKeywords_collect lowerReq (term # terms) keywords =
     extractKeywords_collect lowerReq terms
       (if Contains lowerReq term then keywords @ [term] else keywords)"

fun extractKeywords_dedup ::
  "string list \<Rightarrow> string list \<Rightarrow> (string \<Rightarrow> bool) \<Rightarrow> string list" where
  "extractKeywords_dedup [] uniqueKeywords seen = uniqueKeywords"
| "extractKeywords_dedup (kw # kws) uniqueKeywords seen =
     (if \<not> seen kw then extractKeywords_dedup kws (uniqueKeywords @ [kw]) (seen(kw := True))
      else extractKeywords_dedup kws uniqueKeywords seen)"

definition extractKeywords :: "(string \<Rightarrow> string) \<Rightarrow> string \<Rightarrow> string list" where
  "extractKeywords ToLower requirement =
     (let lowerReq = ToLower requirement;
          keywords = extractKeywords_collect lowerReq technicalTerms [];
          uniqueKeywords = extractKeywords_dedup keywords [] (\<lambda>kw. False)
      in if length uniqueKeywords > 10 then take 10 uniqueKeywords else uniqueKeywords)"

subsection \<open>\<^verbatim>\<open>classifyUserRequirement\<close>\<close>

text \<open>
  The function ranges over four Go maps: the literal \<open>taskPatterns\<close>, \<open>primaryScore\<close>
  (twice), \<open>secondaryScore\<close> and the literal \<open>featurePatterns\<close>. Go leaves the iteration
  order of a map unspecified and varies it from one \<^verbatim>\<open>range\<close> statement to the next; a
  \<^verbatim>\<open>range\<close> visits every key of the map once. The order of each of the five loops is
  therefore an input of the model (\<open>map_orders\<close>): a list of keys, of which the loop
  visits those present in the map, in the list's order (\<open>range_map\<close>). An order is
  admissible when it lists every possible key exactly once (\<open>valid_orders\<close>).

  \<open>add_score\<close> is the body of the inner scoring loop
  (\<^verbatim>\<open>count := strings.Count(req, pattern); if count > 0 { primaryScore[taskType] += count }\<close>),
  \<open>highest\<close> the loop that keeps the first entry visited with a strictly greater score
  (\<^verbatim>\<open>if score > highestScore { highestScore = score; ...Type = taskType }\<close>).
\<close>

definition range_map :: "(string \<rightharpoonup> 'v) \<Rightarrow> string list \<Rightarrow> (string \<times> 'v) list" where
  "range_map m order = List.map_filter (\<lambda>k. map_option (Pair k) (m k)) order"

record map_orders =
  taskPatterns_order :: "string list"
  primaryScore_order :: "string list"
  primaryScore_order2 :: "string list"
  secondaryScore_order :: "string list"
  featurePatterns_order :: "string list"

definition taskPatterns :: "(string \<times> string list) list" where
  "taskPatterns =
     [(''Reporting'',
        [''report'', ''chart'', ''graph'', ''visualize'', ''dashboard'', ''summary'', ''pivot'',
         ''statistics'', ''trend'', ''analysis'', ''kpi'', ''metric'', ''visualization'']),
      (''DataProcessing'',
        [''filter'', ''sort'', ''clean'', ''calculate'', ''transform'', ''convert'', ''normalize'',
         ''aggregate'', ''group'', ''consolidate'', ''merge'', ''join'', ''data processing'']),
      (''UserInterface'',
        [''form'', ''button'', ''userform'', ''interface'', ''ui'', ''input'', ''dialog'',
         ''dropdown'', ''checkbox'', ''interactive'', ''menu'', ''user experience'']),
      (''Automation'',
        [''automate'', ''schedule'', ''batch'', ''periodic'', ''monitor'', ''workflow'',
         ''trigger'', ''event'', ''automatic'', ''background'', ''routine'']),
      (''DataValidation'',
        [''validate'', ''verify'', ''check'', ''ensure'', ''integrity'', ''constraint'',
         ''rule'', ''validation'', ''error checking'', ''valid'', ''format checking''])]"

definition featurePatterns :: "(string \<times> string) list" where
  "featurePatterns =
     [(''SQL'', ''sql|query|select|from|where|group by''),
      (''Charts'', ''chart|graph|plot|visualize|pie|bar|line''),
      (''Formatting'', ''format|style|color|conditional|highlight''),
      (''ImportExport'', ''import|export|csv|text file|external''),
      (''Calculations'', ''calculate|sum|average|count|formula''),
      (''AdvancedUI'', ''userform|complex form|multi-step|wizard''),
      (''ErrorHandling'', ''error handling|validation|try catch|on error'')]"

definition valid_orders :: "map_orders \<Rightarrow> bool" where
  "valid_orders orders =
     (distinct (taskPatterns_order orders)
      \<and> set (taskPatterns_order orders) = set (map fst taskPatterns)
      \<and> distinct (primaryScore_order orders)
      \<and> set (primaryScore_order orders) = set (map fst taskPatterns)
      \<and> distinct (primaryScore_order2 orders)
      \<and> set (primaryScore_order2 orders) = set (map fst taskPatterns)
      \<and> distinct (secondaryScore_order orders)
      \<and> set (secondaryScore_order orders) = set (map fst taskPatterns)
      \<and> distinct (featurePatterns_order orders)
      \<and> set (featurePatterns_order orders) = set (map fst featurePatterns))"

definition add_score :: "string \<Rightarrow> string \<Rightarrow> string \<Rightarrow> (string \<rightharpoonup> int) \<Rightarrow> (string \<rightharpoonup> int)" where
  "add_score req taskType pattern primaryScore =
     (let count = Count req pattern
      in if count > 0
         then primaryScore(taskType \<mapsto> (case primaryScore taskType of None \<Rightarrow> 0 | Some v \<Rightarrow> v) + count)
         else primaryScore)"

definition highest :: "(string \<times> int) list \<Rightarrow> int \<times> string \<Rightarrow> int \<times> string" where
  "highest entries start =
     fold (\<lambda>(taskType, score) (highestScore, best).
             if score > highestScore then (score, taskType) else (highestScore, best))
          entries start"

definition classifyUserRequirement ::
  "map_orders \<Rightarrow> (string \<Rightarrow> string) \<Rightarrow> string \<Rightarrow> DataRange \<Rightarrow> TaskClassification" where
  "classifyUserRequirement orders ToLower requirement structure =
     (let req = ToLower requirement;
          keywords = extractKeywords ToLower req;
          primaryScore =
            fold (\<lambda>(taskType, patterns) score. fold (add_score req taskType) patterns score)
                 (range_map (map_of taskPatterns) (taskPatterns_order orders)) Map.empty;
          primaryType =
            snd (highest (range_map primaryScore (primaryScore_order orders)) (0, ''Generic''));
          secondaryScore =
            fold (\<lambda>(taskType, score) secondaryScore.
                    if taskType \<noteq> primaryType \<and> score > 0
                    then secondaryScore(taskType \<mapsto> score) else secondaryScore)
                 (range_map primaryScore (primaryScore_order2 orders)) Map.empty;
          secondaryType =
            snd (highest (range_map secondaryScore (secondaryScore_order orders)) (0, ''''));
          features =
            fold (\<lambda>(feature, pattern) features.
                    if MatchString pattern req then features @ [feature] else features)
                 (range_map (map_of featurePatterns) (featurePatterns_order orders)) [];
          complexityScore =
            (if length features \<ge> 3 then 2 else if length features \<ge> 1 then 1 else 0)
            + (if secondaryType \<noteq> '''' then 1 else 0)
            + (if Contains req ''complex'' \<or> Contains req ''advanced''
                  \<or> Contains req ''sophisticated'' then 1 else 0)
            + (if length requirement > 200 then 1 else (0::int))
      in \<lparr> PrimaryType = primaryType,
           SecondaryType = secondaryType,
           Features = features,
           Complexity = (if complexityScore \<ge> 3 then ''Complex''
                         else if complexityScore \<ge> 1 then ''Moderate'' else ''Simple''),
           Keywords = keywords \<rparr>)"

text \<open>Two admissible iteration orders: the order of the map literals and its reverse.\<close>

definition literal_order :: map_orders where
  "literal_order =
     \<lparr> taskPatterns_order = map fst taskPatterns,
       primaryScore_order = map fst taskPatterns,
       primaryScore_order2 = map fst taskPatterns,
       secondaryScore_order = map fst taskPatterns,
       featurePatterns_order = map fst featurePatterns \<rparr>"

definition reverse_order :: map_orders where
  "reverse_order =
     \<lparr> taskPatterns_order = rev (map fst taskPatterns),
       primaryScore_order = rev (map fst taskPatterns),
       primaryScore_order2 = rev (map fst taskPatterns),
       secondaryScore_order = rev (map fst taskPatterns),
       featurePatterns_order = rev (map fst featurePatterns) \<rparr>"

definition example_range :: DataRange where
  "example_range =
     \<lparr> RangeAddress = ''A1:B4'', Headers = [''Name'', ''Age''], DataRows = 3,
       DataTypes = [''Name'' \<mapsto> ''Text'', ''Age'' \<mapsto> ''Number''],
       SampleData = [[''Alice'', ''30''], [''Bob'', ''25''], [''Cara'', ''41'']],
       Description = ''People'', HasHeaders = True, SheetName = ''Sheet1'',
       Relationships = [] \<rparr>"

subsection \<open>\<^verbatim>\<open>GenerateExaMCPPromptWithConfig\<close>\<close>

text \<open>
  The function fills a \<^verbatim>\<open>text/template\<close> template. The template engine belongs to Go's
  standard library and the clock to the operating system; both are parameters of the
  model, collected in \<open>prompt_env\<close> with the package's long string constants (the five
  templates, the five examples and the three module descriptions of
  \<open>getModuleDescriptions\<close>), whose text no claim depends on:
  \<^item> \<open>Parse text\<close> is \<^verbatim>\<open>template.New("mcp_prompt").Parse(text)\<close>: the error's message or
    the parsed template;
  \<^item> \<open>Execute tmpl data\<close> is \<^verbatim>\<open>tmpl.Execute(&buf, data)\<close>: the error's message or the
    contents of the buffer;
  \<^item> \<open>CurrentDateTime\<close> is \<^verbatim>\<open>time.Now().Format("2006-01-02 15:04:05")\<close>.
  An \<^verbatim>\<open>error\<close> of this package is only ever printed with \<^verbatim>\<open>%v\<close>, so it is
  modelled by its message. What is proved holds for every \<open>prompt_env\<close>.

  The values of the template's data map are of the five types of \<open>template_value\<close>.
  The custom template variables are written into the map last and replace entries of
  the same key.
\<close>

record PromptConfig =
  Language :: string
  IncludeExamples :: bool
  UseAdvancedContext :: bool
  MaxSampleRows :: int
  HighlightKeyColumns :: "string list"
  TemplateVariables :: "string \<rightharpoonup> string"
  OutputType :: string
  DetailLevel :: string
  IncludeModules :: "string list"
  TargetExcelVersion :: string

datatype template_value =
  VString string
  | VStructure DataRange
  | VConfig PromptConfig
  | VRows "string list list"
  | VStrings "string list"

record 't prompt_env =
  Parse :: "string \<Rightarrow> string + 't"
  Execute :: "'t \<Rightarrow> (string \<rightharpoonup> template_value) \<Rightarrow> string + string"
  CurrentDateTime :: string
  basicTemplate :: string
  advancedTemplate :: string
  reportingTemplate :: string
  dataProcessingTemplate :: string
  userInterfaceTemplate :: string
  basicExample :: string
  sqlExample :: string
  reportingExample :: string
  dataProcessingExample :: string
  userInterfaceExample :: string
  moduleDescriptions :: "string \<rightharpoonup> string"

text \<open>
  \<^verbatim>\<open>strings.Join\<close>, and \<^verbatim>\<open>%d\<close> of \<^verbatim>\<open>fmt.Sprintf\<close> (\<open>Itoa\<close>: decimal digits, with a
  minus sign for a negative number).
\<close>

abbreviation newline :: string where
  "newline \<equiv> [CHR 0x0A]"

fun Join :: "string list \<Rightarrow> string \<Rightarrow> string" where
  "Join [] sep = []"
| "Join [x] sep = x"
| "Join (x # y # ys) sep = x @ sep @ Join (y # ys) sep"

function decimal :: "nat \<Rightarrow> string" where
  "decimal n = (if n < 10 then [char_of (48 + n)] else decimal (n div 10) @ [char_of (48 + n mod 10)])"
  by pat_completeness auto
termination
  by (relation "measure id") auto

definition Itoa :: "int \<Rightarrow> string" where
  "Itoa i = (if i < 0 then ''-'' @ decimal (nat (- i)) else decimal (nat i))"

definition DefaultPromptConfig :: PromptConfig where
  "DefaultPromptConfig =
     \<lparr> Language = ''en'', IncludeExamples = True, UseAdvancedContext = False,
       MaxSampleRows = 3, HighlightKeyColumns = [], TemplateVariables = Map.empty,
       OutputType = ''Generic'', DetailLevel = ''Intermediate'', IncludeModules = [],
       TargetExcelVersion = ''Excel 2016+'' \<rparr>"

definition getModuleList :: "bool \<Rightarrow> string list" where
  "getModuleList includeStandardModules =
     (if includeStandardModules then [''SQLUtils'', ''DataTools'', ''UIHelpers''] else [])"

definition getPromptTemplate :: "'t prompt_env \<Rightarrow> PromptConfig \<Rightarrow> string" where
  "getPromptTemplate env config =
     (if OutputType config = ''Reporting'' then reportingTemplate env
      else if OutputType config = ''DataProcessing'' then dataProcessingTemplate env
      else if OutputType config = ''UserInterface'' then userInterfaceTemplate env
      else if UseAdvancedContext config then advancedTemplate env
      else basicTemplate env)"

fun formatHeaders_loop :: "int \<Rightarrow> string list \<Rightarrow> (string \<rightharpoonup> string) \<Rightarrow> string \<Rightarrow> string" where
  "formatHeaders_loop i [] dataTypes result = result"
| "formatHeaders_loop i (header # headers) dataTypes result =
     (let dataType = (case dataTypes header of None \<Rightarrow> [] | Some t \<Rightarrow> t);
          dataType = (if dataType = [] then ''Unknown'' else dataType)
      in formatHeaders_loop (i + 1) headers dataTypes
           (result @ ''[header:'' @ header @ ''] (Column '' @ columnLetterFromIndex i
              @ '', Type: '' @ dataType @ '')'' @ newline))"

definition formatHeaders :: "string list \<Rightarrow> (string \<rightharpoonup> string) \<Rightarrow> string" where
  "formatHeaders headers dataTypes = formatHeaders_loop 0 headers dataTypes []"

text \<open>
  The format string of \<open>formatRelationships\<close> holds the eight bytes C3 A2 E2 80 A0 E2 80 99
  between the two fields (a mis-encoded arrow); \<open>arrow\<close> is that byte sequence.
\<close>

definition arrow :: string where
  "arrow = [CHR 0xC3, CHR 0xA2, CHR 0xE2, CHR 0x80, CHR 0xA0, CHR 0xE2, CHR 0x80, CHR 0x99]"

fun formatRelationships_loop :: "int \<Rightarrow> Relationship list \<Rightarrow> string \<Rightarrow> string" where
  "formatRelationships_loop i [] result = result"
| "formatRelationships_loop i (rel # rels) result =
     formatRelationships_loop (i + 1) rels
       (result @ Itoa (i + 1) @ ''. '' @ Type rel @ '' related to '' @ TargetRange rel
          @ '' through '' @ SourceField rel @ '' '' @ arrow @ '' '' @ TargetField rel @ newline)"

definition formatRelationships :: "Relationship list \<Rightarrow> string" where
  "formatRelationships relationships =
     (if length relationships = 0 then ''No relationships detected.''
      else formatRelationships_loop 0 relationships [])"

fun getModuleDescriptions_loop :: "(string \<rightharpoonup> string) \<Rightarrow> string list \<Rightarrow> string \<Rightarrow> string" where
  "getModuleDescriptions_loop descs [] result = result"
| "getModuleDescriptions_loop descs (module # modules) result =
     getModuleDescriptions_loop descs modules
       (case descs module of
          Some desc \<Rightarrow> result @ ''## '' @ module @ '' Module'' @ newline @ desc @ newline @ newline
        | None \<Rightarrow> result)"

definition getModuleDescriptions :: "'t prompt_env \<Rightarrow> string list \<Rightarrow> string" where
  "getModuleDescriptions env modules =
     (if length modules = 0 then []
      else getModuleDescriptions_loop (moduleDescriptions env) modules [])"

fun contains :: "string list \<Rightarrow> string \<Rightarrow> bool" where
  "contains [] v = False"
| "contains (item # slice) v = (if item = v then True else contains slice v)"

fun getExamples_loop :: "int \<Rightarrow> string list \<Rightarrow> string \<Rightarrow> string" where
  "getExamples_loop i [] result = result"
| "getExamples_loop i (example # examples) result =
     getExamples_loop (i + 1) examples
       (result @ ''### Example '' @ Itoa (i + 1) @ newline @ example @ newline @ newline)"

definition getExamples :: "'t prompt_env \<Rightarrow> PromptConfig \<Rightarrow> string" where
  "getExamples env config =
     (if \<not> IncludeExamples config then []
      else
        let examples =
              (if OutputType config = ''Reporting'' then [reportingExample env]
               else if OutputType config = ''DataProcessing'' then [dataProcessingExample env]
               else if OutputType config = ''UserInterface'' then [userInterfaceExample env]
               else [basicExample env]);
            examples =
              (if contains (IncludeModules config) ''SQLUtils'' then examples @ [sqlExample env]
               else examples)
        in getExamples_loop 0 examples [])"

text \<open>
  \<^verbatim>\<open>
  prompt.WriteString("# TASK: Generate Excel VBA script based on user requirements\n\n")
  prompt.WriteString(fmt.Sprintf("ERROR: Template processing failed: %v. Using fallback prompt.\n\n", err))
  prompt.WriteString("## EXCEL STRUCTURE\n")
  prompt.WriteString(fmt.Sprintf("- Sheet: %s\n", structure.SheetName))
  prompt.WriteString(fmt.Sprintf("- Range: %s\n", structure.RangeAddress))
  prompt.WriteString(fmt.Sprintf("- Headers: %s\n", strings.Join(structure.Headers, ", ")))
  prompt.WriteString(fmt.Sprintf("- Data Rows: %d\n\n", structure.DataRows))
  prompt.WriteString("## USER REQUIREMENT\n")
  prompt.WriteString(userRequirement)
  prompt.WriteString("\n\n")
  prompt.WriteString("## OUTPUT INSTRUCTIONS\n")
  prompt.WriteString("Generate VBA code that fulfills the user requirement.\n")
  \<close>
\<close>

definition fallbackPrompt :: "DataRange \<Rightarrow> string \<Rightarrow> PromptConfig \<Rightarrow> string \<Rightarrow> string" where
  "fallbackPrompt structure userRequirement config err =
     ''# TASK: Generate Excel VBA script based on user requirements'' @ newline @ newline
     @ ''ERROR: Template processing failed: '' @ err @ ''. Using fallback prompt.'' @ newline @ newline
     @ ''## EXCEL STRUCTURE'' @ newline
     @ ''- Sheet: '' @ SheetName structure @ newline
     @ ''- Range: '' @ RangeAddress structure @ newline
     @ ''- Headers: '' @ Join (Headers structure) '', '' @ newline
     @ ''- Data Rows: '' @ Itoa (DataRows structure) @ newline @ newline
     @ ''## USER REQUIREMENT'' @ newline
     @ userRequirement
     @ newline @ newline
     @ ''## OUTPUT INSTRUCTIONS'' @ newline
     @ ''Generate VBA code that fulfills the user requirement.'' @ newline"

definition template_data ::
  "'t prompt_env \<Rightarrow> DataRange \<Rightarrow> string \<Rightarrow> PromptConfig \<Rightarrow> string list list \<Rightarrow> string list
     \<Rightarrow> (string \<rightharpoonup> template_value)" where
  "template_data env structure userRequirement config sampleDataLimited columnLetters =
     [''CurrentDateTime'' \<mapsto> VString (CurrentDateTime env),
      ''Structure'' \<mapsto> VStructure structure,
      ''UserRequirement'' \<mapsto> VString userRequirement,
      ''Config'' \<mapsto> VConfig config,
      ''HeadersFormatted'' \<mapsto> VString (formatHeaders (Headers structure) (DataTypes structure)),
      ''SampleDataLimited'' \<mapsto> VRows sampleDataLimited,
      ''RelationshipDescriptions'' \<mapsto> VString (formatRelationships (Relationships structure)),
      ''ModuleDescriptions'' \<mapsto> VString (getModuleDescriptions env (IncludeModules config)),
      ''Examples'' \<mapsto> VString (getExamples env config),
      ''ColumnLetters'' \<mapsto> VStrings columnLetters]
     ++ (map_option VString \<circ> TemplateVariables config)"

text \<open>
  The data map is built before the template is parsed, so a panic of
  \<open>limitSampleData\<close> (or of \<^verbatim>\<open>make\<close> in \<open>generateColumnLetters\<close>) ends the call before
  \<open>Parse\<close> is reached; the function has no \<^verbatim>\<open>recover\<close>. The other entries cannot panic.
\<close>

definition GenerateExaMCPPromptWithConfig ::
  "'t prompt_env \<Rightarrow> DataRange \<Rightarrow> string \<Rightarrow> PromptConfig \<Rightarrow> panic + string" where
  "GenerateExaMCPPromptWithConfig env structure userRequirement config =
     (let templateContent = getPromptTemplate env config
      in case limitSampleData (SampleData structure) (MaxSampleRows config) of
           Inl p \<Rightarrow> Inl p
         | Inr sampleDataLimited \<Rightarrow>
             (case generateColumnLetters (int (length (Headers structure))) of
                Inl p \<Rightarrow> Inl p
              | Inr columnLetters \<Rightarrow>
                  (let data = template_data env structure userRequirement config
                                sampleDataLimited columnLetters
                   in case Parse env templateContent of
                        Inl err \<Rightarrow> Inr (fallbackPrompt structure userRequirement config err)
                      | Inr tmpl \<Rightarrow>
                          (case Execute env tmpl data of
                             Inl err \<Rightarrow> Inr (fallbackPrompt structure userRequirement config err)
                           | Inr buf \<Rightarrow> Inr buf))))"

definition GenerateMCPPrompt ::
  "'t prompt_env \<Rightarrow> DataRange \<Rightarrow> string \<Rightarrow> bool \<Rightarrow> panic + string" where
  "GenerateMCPPrompt env structure userRequirement includeStandardModules =
     (let config = DefaultPromptConfig\<lparr>IncludeModules := getModuleList includeStandardModules\<rparr>
      in GenerateExaMCPPromptWithConfig env structure userRequirement config)"

text \<open>
  Two engines to run the function on: one whose \<open>Parse\<close> rejects every template (as the
  library does for a template that calls a function that was never registered), and one
  whose \<open>Execute\<close> fails. A configuration with a negative sample cap.
\<close>

definition rejecting_env :: "unit prompt_env" where
  "rejecting_env =
     \<lparr> Parse = (\<lambda>text. Inl ''template: mcp_prompt:19: function add not defined''),
       Execute = (\<lambda>tmpl data. Inr []),
       CurrentDateTime = ''2025-01-01 00:00:00'',
       basicTemplate = ''Row {{add $index 1}}'', advancedTemplate = ''Row {{add $index 1}}'',
       reportingTemplate = ''Row {{add $index 1}}'', dataProcessingTemplate = ''Row {{add $index 1}}'',
       userInterfaceTemplate = ''Row {{add $index 1}}'',
       basicExample = [], sqlExample = [], reportingExample = [], dataProcessingExample = [],
       userInterfaceExample = [], moduleDescriptions = Map.empty \<rparr>"

definition execute_error_env :: "unit prompt_env" where
  "execute_error_env =
     rejecting_env
       \<lparr> Parse := (\<lambda>text. Inr ()),
         Execute := (\<lambda>tmpl data. Inl ''template: mcp_prompt: error calling join'') \<rparr>"

definition negative_cap_config :: PromptConfig where
  "negative_cap_config = DefaultPromptConfig\<lparr>MaxSampleRows := - 1\<rparr>"

subsection \<open>\<^verbatim>\<open>App.AnalyzeExcelFile\<close> (\<^verbatim>\<open>backend/main.go\<close>)\<close>

text \<open>
  A Go \<^verbatim>\<open>error\<close> is a value of type \<open>error\<close>: \<open>Error msg\<close> is an error of another
  package, known by its message; \<open>WrapError code err\<close> is the error that
  \<^verbatim>\<open>a.wrapError(code, err, nil)\<close> builds, whose message is the JSON object of the code and
  of the message of \<open>err\<close>. A pointer that may be nil is an \<open>option\<close>, and a Go result
  pair \<^verbatim>\<open>(analysis, err)\<close> is a pair of options.

  \<open>Config_Excel\<close> and \<open>Config_System\<close> are the groups \<^verbatim>\<open>Excel\<close> and \<^verbatim>\<open>System\<close> of the
  struct \<^verbatim>\<open>Config\<close>; the method reads no other group. \<open>AnalysisOptions\<close> is the
  options struct of package \<^verbatim>\<open>excel\<close>, with the four fields the method sets.
\<close>

datatype error = Error string | WrapError string error

record AnalysisOptions =
  MaxSheets :: int
  MaxRows :: int
  MaxSamples :: int
  UseAdvanced :: bool

record Config_Excel =
  MaxSheets :: int
  MaxRows :: int
  MaxSamples :: int
  UseAdvanced :: bool

record Config_System =
  DevMode :: bool
  TempDir :: string
  MaxConcurrency :: int
  CacheEnabled :: bool
  CacheDir :: string

record Config =
  Excel :: Config_Excel
  System :: Config_System

text \<open>
  Package \<^verbatim>\<open>excel\<close> lies outside the files verified here, and \<^verbatim>\<open>filepath.Join\<close>
  belongs to the standard library. The functions the method calls are parameters of the
  model, collected in \<open>excel_pkg\<close>; \<open>'a\<close> stands for \<^verbatim>\<open>excel.ExcelStructureAnalysis\<close> and
  \<open>'w\<close> for the state of the world outside the program (the workbooks and the cache
  directory on disk):
  \<^item> \<open>HashFilePath p\<close> is the text \<^verbatim>\<open>fmt.Sprintf("%x", excel.HashFilePath(p))\<close>.
    Modelled from the spec: \<^verbatim>\<open>excel.HashFilePath\<close>, whose code is missing, is a function of
    the path it is given and reads neither the file nor any other state ("the cache
    fingerprint as described in the source is derived from the file's path, not its
    content"); the method passes it the path and nothing else;
  \<^item> \<open>LoadAnalysisFromCache file w\<close> and \<open>excel_AnalyzeExcelFile p options w\<close> read the
    world and return a result pair;
  \<^item> \<open>SaveAnalysisToCache a file w\<close> is the world after the call; the method ignores
    what the call returns, so a failed write shows only in the world it leaves.
  What is proved about \<open>AnalyzeExcelFile\<close> holds for every \<open>excel_pkg\<close>.
\<close>

record ('a, 'w) excel_pkg =
  filepath_Join :: "string \<Rightarrow> string \<Rightarrow> string"
  HashFilePath :: "string \<Rightarrow> string"
  LoadAnalysisFromCache :: "string \<Rightarrow> 'w \<Rightarrow> 'a option \<times> error option"
  excel_AnalyzeExcelFile :: "string \<Rightarrow> AnalysisOptions \<Rightarrow> 'w \<Rightarrow> 'a option \<times> error option"
  SaveAnalysisToCache :: "'a \<Rightarrow> string \<Rightarrow> 'w \<Rightarrow> 'w"

text \<open>
  The state the method works on: the fields of \<^verbatim>\<open>App\<close> it reads or writes
  (\<^verbatim>\<open>a.config\<close>, \<^verbatim>\<open>a.excelAnalysis\<close>, \<^verbatim>\<open>a.filePath\<close>), the world, and the calls it has
  made to the outside, in order (\<open>effects\<close>): the events sent to the front end, the
  cache reads, the analysis computations and the cache writes. Log lines are not
  recorded. The application has started: \<^verbatim>\<open>a.ctx\<close> and \<^verbatim>\<open>a.config\<close> are set.
\<close>

datatype 'a effect =
  EventsEmit string
  | Load string
  | Analyze string AnalysisOptions
  | Save 'a string

record ('a, 'w) machine =
  a_config :: Config
  a_excelAnalysis :: "'a option"
  a_filePath :: string
  world :: 'w
  effects :: "'a effect list"

definition perform :: "'a effect \<Rightarrow> ('a, 'w) machine \<Rightarrow> ('a, 'w) machine" where
  "perform e s = s\<lparr>effects := effects s @ [e]\<rparr>"

text \<open>
  \<^verbatim>\<open>
  options := excel.AnalysisOptions{
      MaxSheets: a.config.Excel.MaxSheets, MaxRows: a.config.Excel.MaxRows,
      MaxSamples: a.config.Excel.MaxSamples, UseAdvanced: a.config.Excel.UseAdvanced }
  ...
  cacheFile := filepath.Join(a.config.System.CacheDir,
                             fmt.Sprintf("%x.json", excel.HashFilePath(filePath)))
  \<close>
\<close>

definition analysis_options :: "Config \<Rightarrow> AnalysisOptions" where
  "analysis_options cfg =
     \<lparr> AnalysisOptions.MaxSheets = Config_Excel.MaxSheets (Excel cfg),
       AnalysisOptions.MaxRows = Config_Excel.MaxRows (Excel cfg),
       AnalysisOptions.MaxSamples = Config_Excel.MaxSamples (Excel cfg),
       AnalysisOptions.UseAdvanced = Config_Excel.UseAdvanced (Excel cfg) \<rparr>"

definition cacheFile :: "('a, 'w) excel_pkg \<Rightarrow> Config \<Rightarrow> string \<Rightarrow> string" where
  "cacheFile pkg cfg filePath =
     filepath_Join pkg (CacheDir (System cfg)) (HashFilePath pkg filePath @ ''.json'')"

text \<open>
  Lines 452 to 469 of the method (\<open>obtain_analysis\<close>; \<open>run_analysis\<close> is the call of
  \<^verbatim>\<open>excel.AnalyzeExcelFile\<close>, \<open>save_analysis\<close> the call of \<^verbatim>\<open>excel.SaveAnalysisToCache\<close>):
  \<^verbatim>\<open>
  if a.config.System.CacheEnabled {
      cacheFile := ...
      analysis, err = excel.LoadAnalysisFromCache(cacheFile)
      if err == nil {
          log.Debug()...
      } else {
          analysis, err = excel.AnalyzeExcelFile(filePath, options)
          if err == nil && analysis != nil {
              excel.SaveAnalysisToCache(analysis, cacheFile)
          }
      }
  } else {
      analysis, err = excel.AnalyzeExcelFile(filePath, options)
  }
  \<close>
\<close>

definition run_analysis ::
  "('a, 'w) excel_pkg \<Rightarrow> string \<Rightarrow> ('a, 'w) machine
     \<Rightarrow> ('a option \<times> error option) \<times> ('a, 'w) machine" where
  "run_analysis pkg filePath s =
     (let options = analysis_options (a_config s)
      in (excel_AnalyzeExcelFile pkg filePath options (world s), perform (Analyze filePath options) s))"

definition save_analysis ::
  "('a, 'w) excel_pkg \<Rightarrow> 'a \<Rightarrow> string \<Rightarrow> ('a, 'w) machine \<Rightarrow> ('a, 'w) machine" where
  "save_analysis pkg analysis file s =
     perform (Save analysis file) (s\<lparr>world := SaveAnalysisToCache pkg analysis file (world s)\<rparr>)"

definition obtain_analysis ::
  "('a, 'w) excel_pkg \<Rightarrow> string \<Rightarrow> ('a, 'w) machine
     \<Rightarrow> ('a option \<times> error option) \<times> ('a, 'w) machine" where
  "obtain_analysis pkg filePath s =
     (if CacheEnabled (System (a_config s)) then
        let file = cacheFile pkg (a_config s) filePath;
            (analysis, err) = LoadAnalysisFromCache pkg file (world s);
            s1 = perform (Load file) s
        in if err = None then ((analysis, err), s1)
           else
             let ((analysis, err), s2) = run_analysis pkg filePath s1
             in (case (err, analysis) of
                   (None, Some a) \<Rightarrow> ((analysis, err), save_analysis pkg a file s2)
                 | _ \<Rightarrow> ((analysis, err), s2))
      else run_analysis pkg filePath s)"

text \<open>
  Lines 471 to 510 (\<open>conclude\<close>). With an error the task is marked failed, the update
  event is sent and the wrapped error is returned with a nil analysis. Without an error
  the method logs \<^verbatim>\<open>len(analysis.SheetNames)\<close>: on a nil analysis this read panics before
  the update event; the deferred \<^verbatim>\<open>a.recoverPanic\<close> recovers, sends the event
  \<^verbatim>\<open>app:error\<close>, and the method returns the zero values \<^verbatim>\<open>(nil, nil)\<close>. Otherwise the update
  event is sent, the analysis and the path are stored in the \<^verbatim>\<open>App\<close>, and the analysis
  is returned.
\<close>

definition conclude ::
  "string \<Rightarrow> 'a option \<times> error option \<Rightarrow> ('a, 'w) machine
     \<Rightarrow> ('a option \<times> error option) \<times> ('a, 'w) machine" where
  "conclude filePath r s =
     (case r of
        (analysis, Some err) \<Rightarrow>
          ((None, Some (WrapError ''EXCEL_ANALYSIS_FAILED'' err)),
           perform (EventsEmit ''task:update'') s)
      | (None, None) \<Rightarrow> ((None, None), perform (EventsEmit ''app:error'') s)
      | (Some a, None) \<Rightarrow>
          ((Some a, None),
           (perform (EventsEmit ''task:update'') s)\<lparr>a_excelAnalysis := Some a, a_filePath := filePath\<rparr>))"

text \<open>The method: the start event, lines 452 to 469, lines 471 to 510.\<close>

definition AnalyzeExcelFile ::
  "('a, 'w) excel_pkg \<Rightarrow> string \<Rightarrow> ('a, 'w) machine
     \<Rightarrow> ('a option \<times> error option) \<times> ('a, 'w) machine" where
  "AnalyzeExcelFile pkg filePath s =
     (let s0 = perform (EventsEmit ''task:start'') s;
          (r, s1) = obtain_analysis pkg filePath s0
      in conclude filePath r s1)"

text \<open>The number of analysis computations a state records.\<close>

definition is_Analyze :: "'a effect \<Rightarrow> bool" where
  "is_Analyze e = (case e of Analyze filePath options \<Rightarrow> True | _ \<Rightarrow> False)"

definition analyses_performed :: "('a, 'w) machine \<Rightarrow> nat" where
  "analyses_performed s = length (filter is_Analyze (effects s))"

text \<open>\<open>n\<close> requests for the same path, served one after the other.\<close>

fun serve ::
  "('a, 'w) excel_pkg \<Rightarrow> string \<Rightarrow> nat \<Rightarrow> ('a, 'w) machine
     \<Rightarrow> ('a option \<times> error option) list \<times> ('a, 'w) machine" where
  "serve pkg filePath 0 s = ([], s)"
| "serve pkg filePath (Suc n) s =
     (let (r, s1) = AnalyzeExcelFile pkg filePath s;
          (rs, s2) = serve pkg filePath n s1
      in (r # rs, s2))"

text \<open>
  Requests that overlap. Each request is a goroutine running the method; the method takes
  no lock and keeps no record of computations in progress, so the calls of different
  requests can interleave in any order. A request is at one of five points: before the
  cache read (\<open>Started\<close>), before the analysis (\<open>Computing\<close>), before the cache write
  (\<open>Saving\<close>), before lines 471 to 510 (\<open>Concluding\<close>), or returned. \<open>request_step\<close>
  runs one request up to its next point, on the shared state; \<open>step i\<close> lets request
  \<open>i\<close> take its step and \<open>run\<close> follows a schedule, the list of the requests that move.
  A request on its own takes at most four steps, and they amount to the method
  (\<open>run_request_alone\<close> below).
\<close>

datatype 'a request =
  Started
  | Computing
  | Saving 'a
  | Concluding "'a option \<times> error option"
  | Returned "'a option \<times> error option"

record ('a, 'w) system =
  shared :: "('a, 'w) machine"
  requests :: "'a request list"

fun request_step ::
  "('a, 'w) excel_pkg \<Rightarrow> string \<Rightarrow> 'a request \<Rightarrow> ('a, 'w) machine
     \<Rightarrow> 'a request \<times> ('a, 'w) machine" where
  "request_step pkg filePath Started s =
     (let s0 = perform (EventsEmit ''task:start'') s
      in if CacheEnabled (System (a_config s0)) then
           let file = cacheFile pkg (a_config s0) filePath;
               (analysis, err) = LoadAnalysisFromCache pkg file (world s0);
               s1 = perform (Load file) s0
           in if err = None then (Concluding (analysis, err), s1) else (Computing, s1)
         else (Computing, s0))"
| "request_step pkg filePath Computing s =
     (let ((analysis, err), s2) = run_analysis pkg filePath s
      in if CacheEnabled (System (a_config s)) then
           (case (err, analysis) of
              (None, Some a) \<Rightarrow> (Saving a, s2)
            | _ \<Rightarrow> (Concluding (analysis, err), s2))
         else (Concluding (analysis, err), s2))"
| "request_step pkg filePath (Saving a) s =
     (Concluding (Some a, None), save_analysis pkg a (cacheFile pkg (a_config s) filePath) s)"
| "request_step pkg filePath (Concluding r) s =
     (let (res, s3) = conclude filePath r s in (Returned res, s3))"
| "request_step pkg filePath (Returned res) s = (Returned res, s)"

definition step ::
  "('a, 'w) excel_pkg \<Rightarrow> string \<Rightarrow> nat \<Rightarrow> ('a, 'w) system \<Rightarrow> ('a, 'w) system" where
  "step pkg filePath i sys =
     (if i < length (requests sys) then
        let (r, s) = request_step pkg filePath (requests sys ! i) (shared sys)
        in \<lparr> shared = s, requests = (requests sys)[i := r] \<rparr>
      else sys)"

definition request_steps ::
  "('a, 'w) excel_pkg \<Rightarrow> string \<Rightarrow> nat \<Rightarrow> 'a request \<times> ('a, 'w) machine
     \<Rightarrow> 'a request \<times> ('a, 'w) machine" where
  "request_steps pkg filePath n = ((\<lambda>(r, s). request_step pkg filePath r s) ^^ n)"

definition run ::
  "('a, 'w) excel_pkg \<Rightarrow> string \<Rightarrow> nat list \<Rightarrow> ('a, 'w) system \<Rightarrow> ('a, 'w) system" where
  "run pkg filePath schedule sys = fold (step pkg filePath) schedule sys"

text \<open>
  What stays true of overlapping requests, as an invariant of \<open>step\<close>: the analysis of the
  workbook yields \<open>a\<close> and the cache file, once it loads, holds \<open>a\<close> (\<open>good_world\<close>); every
  request that carries an analysis or a result carries \<open>a\<close> (\<open>settled\<close>); and the analyses
  performed, plus the requests that have not yet passed their analysis (\<open>waiting\<close>),
  stay within a bound.
\<close>

definition settled :: "'a \<Rightarrow> 'a request \<Rightarrow> bool" where
  "settled a r =
     (case r of
        Started \<Rightarrow> True
      | Computing \<Rightarrow> True
      | Saving b \<Rightarrow> b = a
      | Concluding res \<Rightarrow> res = (Some a, None)
      | Returned res \<Rightarrow> res = (Some a, None))"

definition waiting :: "'a request \<Rightarrow> bool" where
  "waiting r = (case r of Started \<Rightarrow> True | Computing \<Rightarrow> True | _ \<Rightarrow> False)"

text \<open>How far a request has come: each of its steps takes it further, until it has returned.\<close>

definition progress :: "'a request \<Rightarrow> nat" where
  "progress r =
     (case r of Started \<Rightarrow> 0 | Computing \<Rightarrow> 1 | Saving a \<Rightarrow> 2 | Concluding res \<Rightarrow> 3
      | Returned res \<Rightarrow> 4)"

definition good_world ::
  "('a, 'w) excel_pkg \<Rightarrow> Config \<Rightarrow> string \<Rightarrow> 'a \<Rightarrow> 'w \<Rightarrow> bool" where
  "good_world pkg cfg filePath a w =
     (excel_AnalyzeExcelFile pkg filePath (analysis_options cfg) w = (Some a, None)
      \<and> (case LoadAnalysisFromCache pkg (cacheFile pkg cfg filePath) w of
            (x, Some e) \<Rightarrow> True
          | (x, None) \<Rightarrow> x = Some a))"

definition system_invariant ::
  "('a, 'w) excel_pkg \<Rightarrow> Config \<Rightarrow> string \<Rightarrow> 'a \<Rightarrow> nat \<Rightarrow> ('a, 'w) system \<Rightarrow> bool" where
  "system_invariant pkg cfg filePath a bound sys =
     (a_config (shared sys) = cfg
      \<and> good_world pkg cfg filePath a (world (shared sys))
      \<and> list_all (settled a) (requests sys)
      \<and> analyses_performed (shared sys) + length (filter waiting (requests sys)) \<le> bound)"

subsection \<open>A cache store in memory\<close>

text \<open>
  Modelled from the spec: the functions of package \<^verbatim>\<open>excel\<close> that the method calls
  (\<^verbatim>\<open>HashFilePath\<close>, \<^verbatim>\<open>LoadAnalysisFromCache\<close>, \<^verbatim>\<open>AnalyzeExcelFile\<close>,
  \<^verbatim>\<open>SaveAnalysisToCache\<close>), whose code is missing. \<open>memory_pkg\<close> is one instance of
  \<open>excel_pkg\<close>, used to run the method on concrete inputs: the
  cache store of the specification (\<^verbatim>\<open>get(fingerprint) -> Analysis | miss\<close>,
  \<^verbatim>\<open>put(fingerprint, Analysis)\<close>, a \<^verbatim>\<open>put\<close> followed by a \<^verbatim>\<open>get\<close> returning the same
  analysis) as a map from file names to analyses; a workbook as the list of its sheet
  names; an analysis that lists the first \<open>MaxSheets\<close> sheets ("max sheets to analyze")
  and fails on a missing workbook; the path itself as its digest.
  \<open>lost_writes_pkg\<close> is the same store with writes that fail: nothing is written.
\<close>

record store =
  workbooks :: "string \<rightharpoonup> string list"
  cache_files :: "string \<rightharpoonup> string list"

definition memory_pkg :: "(string list, store) excel_pkg" where
  "memory_pkg =
     \<lparr> filepath_Join = (\<lambda>dir name. dir @ ''/'' @ name),
       HashFilePath = (\<lambda>filePath. filePath),
       LoadAnalysisFromCache =
         (\<lambda>file w. case cache_files w file of
                      None \<Rightarrow> (None, Some (Error ''no cache file''))
                    | Some a \<Rightarrow> (Some a, None)),
       excel_AnalyzeExcelFile =
         (\<lambda>filePath options w. case workbooks w filePath of
                      None \<Rightarrow> (None, Some (Error ''cannot open workbook''))
                    | Some sheets \<Rightarrow> (Some (take (nat (AnalysisOptions.MaxSheets options)) sheets), None)),
       SaveAnalysisToCache = (\<lambda>a file w. w\<lparr>cache_files := (cache_files w)(file \<mapsto> a)\<rparr>) \<rparr>"

definition limits_a :: Config_Excel where
  "limits_a = \<lparr> MaxSheets = 1, MaxRows = 1000, MaxSamples = 5, UseAdvanced = True \<rparr>"

definition limits_b :: Config_Excel where
  "limits_b = \<lparr> MaxSheets = 2, MaxRows = 1000, MaxSamples = 5, UseAdvanced = True \<rparr>"

definition caching :: Config_System where
  "caching = \<lparr> DevMode = False, TempDir = ''tmp'', MaxConcurrency = 4, CacheEnabled = True,
       CacheDir = ''cache'' \<rparr>"

definition boot :: "Config_Excel \<Rightarrow> (string list, store) machine" where
  "boot limits =
     \<lparr> a_config = \<lparr> Excel = limits, System = caching \<rparr>, a_excelAnalysis = None, a_filePath = [],
       world = \<lparr> workbooks = [''book.xlsx'' \<mapsto> [''Orders'', ''Customers'']],
                 cache_files = Map.empty \<rparr>,
       effects = [] \<rparr>"

definition two_requests :: "(string list, store) system" where
  "two_requests = \<lparr> shared = boot limits_a, requests = [Started, Started] \<rparr>"

definition rewrite_workbook ::
  "string \<Rightarrow> string list \<Rightarrow> (string list, store) machine \<Rightarrow> (string list, store) machine" where
  "rewrite_workbook filePath sheets s =
     s\<lparr>world := (world s)\<lparr>workbooks := (workbooks (world s))(filePath \<mapsto> sheets)\<rparr>\<rparr>"

definition warm :: "(string list, store) machine" where
  "warm =
     \<lparr> a_config = \<lparr> Excel = limits_b, System = caching \<rparr>, a_excelAnalysis = None, a_filePath = [],
       world = \<lparr> workbooks = [''book.xlsx'' \<mapsto> [''Invoices'', ''Customers'']],
                 cache_files = [''cache/book.xlsx.json'' \<mapsto> [''Orders'']] \<rparr>,
       effects = [] \<rparr>"

definition lost_writes_pkg :: "(string list, store) excel_pkg" where
  "lost_writes_pkg = memory_pkg\<lparr>SaveAnalysisToCache := (\<lambda>a file w. w)\<rparr>"

section \<open>Theorems\<close>

declare decimal.simps [simp del]

declare Count.simps [simp del]

declare columnLetterFromIndex_loop.simps [simp del]
declare generateColumnLetters_loop.simps [simp del]

subsection \<open>Column letters: the loop and the numeral\<close>

lemma columnLetterFromIndex_loop_neg: "index < 0 \<Longrightarrow> columnLetterFromIndex_loop index acc = acc"
  by (subst columnLetterFromIndex_loop.simps) simp

lemma columnLetterFromIndex_loop_nonneg:
  "0 \<le> index \<Longrightarrow> columnLetterFromIndex_loop index acc
     = columnLetterFromIndex_loop (index div 26 - 1) (char_of (65 + index mod 26) # acc)"
  by (subst columnLetterFromIndex_loop.simps) (simp add: Let_def)

lemma columnLetterFromIndex_loop_acc:
  "columnLetterFromIndex_loop i acc = columnLetterFromIndex_loop i [] @ acc"
proof (induction "nat (i + 1)" arbitrary: i acc rule: less_induct)
  case less
  show ?case
  proof (cases "0 \<le> i")
    case True
    then have m: "nat (i div 26 - 1 + 1) < nat (i + 1)" by auto
    show ?thesis
      using less [OF m, of "char_of (65 + i mod 26) # acc"]
        less [OF m, of "[char_of (65 + i mod 26)]"]
      by (simp add: columnLetterFromIndex_loop_nonneg [OF True])
  next
    case False
    then show ?thesis by (simp add: columnLetterFromIndex_loop_neg)
  qed
qed

lemma columnLetterFromIndex_neg: "i < 0 \<Longrightarrow> columnLetterFromIndex i = []"
  by (simp add: columnLetterFromIndex_def columnLetterFromIndex_loop_neg)

lemma columnLetterFromIndex_rec:
  "0 \<le> i \<Longrightarrow> columnLetterFromIndex i
     = columnLetterFromIndex (i div 26 - 1) @ [char_of (65 + i mod 26)]"
  unfolding columnLetterFromIndex_def
  by (subst columnLetterFromIndex_loop_nonneg, assumption, subst columnLetterFromIndex_loop_acc) simp

lemma of_char_letter:
  assumes "0 \<le> r" "r < 26"
  shows "(of_char (char_of (65 + r :: int)) :: nat) = nat (65 + r)"
proof -
  have "(of_char (char_of (65 + r :: int)) :: int) = (65 + r) mod 256"
    by (rule of_char_of)
  also have "\<dots> = 65 + r" using assms by simp
  finally have "int (of_char (char_of (65 + r :: int)) :: nat) = 65 + r"
    by (simp add: of_nat_of_char)
  then show ?thesis by linarith
qed

lemma is_column_letter_char:
  "0 \<le> r \<Longrightarrow> r < 26 \<Longrightarrow> is_column_letter (char_of (65 + r :: int))"
  unfolding is_column_letter_def by (simp add: of_char_letter) linarith

lemma letter_digit_char:
  "0 \<le> r \<Longrightarrow> r < 26 \<Longrightarrow> letter_digit (char_of (65 + r :: int)) = nat (r + 1)"
  by (simp add: letter_digit_def of_char_letter)

lemma column_number_snoc:
  "column_number (name @ [c]) = 26 * column_number name + letter_digit c"
  by (simp add: column_number_def)

lemma columnLetterFromIndex_letters:
  "list_all is_column_letter (columnLetterFromIndex i)"
proof (induction "nat (i + 1)" arbitrary: i rule: less_induct)
  case less
  show ?case
  proof (cases "0 \<le> i")
    case True
    then have m: "nat (i div 26 - 1 + 1) < nat (i + 1)" by auto
    show ?thesis
      using less [OF m] True
      by (simp add: columnLetterFromIndex_rec is_column_letter_char)
  next
    case False
    then show ?thesis by (simp add: columnLetterFromIndex_neg)
  qed
qed

lemma columnLetterFromIndex_number:
  "-1 \<le> i \<Longrightarrow> column_number (columnLetterFromIndex i) = nat (i + 1)"
proof (induction "nat (i + 1)" arbitrary: i rule: less_induct)
  case less
  show ?case
  proof (cases "0 \<le> i")
    case True
    then have m: "nat (i div 26 - 1 + 1) < nat (i + 1)" by auto
    have q: "-1 \<le> i div 26 - 1" using True by simp
    have "column_number (columnLetterFromIndex i)
        = 26 * nat (i div 26 - 1 + 1) + nat (i mod 26 + 1)"
      using less(1) [OF m q] True
      by (simp add: columnLetterFromIndex_rec column_number_snoc letter_digit_char)
    also have "\<dots> = nat (i + 1)"
    proof -
      have "0 \<le> i div 26" "0 \<le> i mod 26" using True by simp_all
      then have "int (26 * nat (i div 26 - 1 + 1) + nat (i mod 26 + 1))
          = 26 * (i div 26) + i mod 26 + 1" by simp
      also have "\<dots> = i + 1" by simp
      finally show ?thesis by linarith
    qed
    finally show ?thesis .
  next
    case False
    with less(2) have "i = -1" by simp
    then show ?thesis by (simp add: columnLetterFromIndex_neg column_number_def)
  qed
qed

lemma columnLetterFromIndex_nonempty: "0 \<le> i \<Longrightarrow> columnLetterFromIndex i \<noteq> []"
  by (simp add: columnLetterFromIndex_rec)

lemma letter_digit_range:
  "is_column_letter c \<Longrightarrow> 1 \<le> letter_digit c \<and> letter_digit c \<le> 26"
  by (auto simp: is_column_letter_def letter_digit_def)

lemma letter_digit_inj:
  "is_column_letter c \<Longrightarrow> is_column_letter d \<Longrightarrow> letter_digit c = letter_digit d \<Longrightarrow> c = d"
proof -
  assume a: "is_column_letter c" "is_column_letter d" "letter_digit c = letter_digit d"
  then have "(of_char c :: nat) = of_char d"
    unfolding is_column_letter_def letter_digit_def by linarith
  then show "c = d" by simp
qed

lemma bijective26_digits:
  fixes a b d e :: nat
  assumes "1 \<le> d" "d \<le> 26" "1 \<le> e" "e \<le> 26" "26 * a + d = 26 * b + e"
  shows "a = b \<and> d = e"
proof -
  have "\<not> a < b" using assms by linarith
  moreover have "\<not> b < a" using assms by linarith
  ultimately have "a = b" by simp
  with assms show ?thesis by simp
qed

lemma column_number_inj:
  "list_all is_column_letter s \<Longrightarrow> list_all is_column_letter t
     \<Longrightarrow> column_number s = column_number t \<Longrightarrow> s = t"
proof (induction s arbitrary: t rule: rev_induct)
  case Nil
  show ?case
  proof (cases t rule: rev_cases)
    case Nil
    then show ?thesis by simp
  next
    case (snoc ys y)
    with Nil.prems letter_digit_range [of y] show ?thesis
      by (auto simp: column_number_snoc column_number_def)
  qed
next
  case (snoc x xs)
  note IH = snoc.IH and prems = snoc.prems
  show ?case
  proof (cases t rule: rev_cases)
    case Nil
    with prems letter_digit_range [of x] show ?thesis
      by (auto simp: column_number_snoc column_number_def)
  next
    case (snoc ys y)
    have "is_column_letter x" using prems(1) by simp
    then have rx: "1 \<le> letter_digit x \<and> letter_digit x \<le> 26"
      by (rule letter_digit_range)
    have "is_column_letter y" using prems(2) snoc by simp
    then have ry: "1 \<le> letter_digit y \<and> letter_digit y \<le> 26"
      by (rule letter_digit_range)
    have e: "26 * column_number xs + letter_digit x = 26 * column_number ys + letter_digit y"
      using prems(3) snoc by (simp add: column_number_snoc)
    have "column_number xs = column_number ys \<and> letter_digit x = letter_digit y"
      using rx ry e by (intro bijective26_digits) simp_all
    then show ?thesis
      using IH [of ys] prems snoc letter_digit_inj [of x y] by simp
  qed
qed

lemma generateColumnLetters_loop_eq:
  "0 \<le> i \<Longrightarrow> i \<le> count \<Longrightarrow> length letters = nat count \<Longrightarrow>
   generateColumnLetters_loop i count letters
     = take (nat i) letters @ map (\<lambda>k. columnLetterFromIndex (int k)) [nat i..<nat count]"
proof (induction i count letters rule: generateColumnLetters_loop.induct)
  case (1 i count letters)
  show ?case
  proof (cases "i < count")
    case True
    have s: "generateColumnLetters_loop i count letters
       = generateColumnLetters_loop (i + 1) count (letters[nat i := columnLetterFromIndex i])"
      using True by (subst generateColumnLetters_loop.simps) simp
    have n: "nat (i + 1) = Suc (nat i)" using 1(2) by simp
    have u: "[nat i..<nat count] = nat i # [Suc (nat i)..<nat count]"
      using True 1(2) by (simp add: upt_conv_Cons)
    have "generateColumnLetters_loop (i + 1) count (letters[nat i := columnLetterFromIndex i])
       = take (nat (i + 1)) (letters[nat i := columnLetterFromIndex i])
          @ map (\<lambda>k. columnLetterFromIndex (int k)) [nat (i + 1)..<nat count]"
      using 1(1) [OF True] 1(2-4) True by simp
    also have "take (nat (i + 1)) (letters[nat i := columnLetterFromIndex i])
       = take (nat i) letters @ [columnLetterFromIndex i]"
      using 1(2-4) True by (simp add: n take_Suc_conv_app_nth)
    finally show ?thesis using s u n 1(2) by simp
  next
    case False
    with 1(2-4) have "i = count" by simp
    then show ?thesis using 1(4) by (subst generateColumnLetters_loop.simps) simp
  qed
qed

lemma generateColumnLetters_eq:
  "0 \<le> n \<Longrightarrow> generateColumnLetters n = Inr (map (\<lambda>k. columnLetterFromIndex (int k)) [0..<nat n])"
  by (simp add: generateColumnLetters_def generateColumnLetters_loop_eq)

subsection \<open>Keyword extraction: the two loops\<close>

lemma extractKeywords_dedup_props:
  "distinct acc \<Longrightarrow>
   distinct (extractKeywords_dedup kws acc (\<lambda>k. k \<in> set acc))
   \<and> set (extractKeywords_dedup kws acc (\<lambda>k. k \<in> set acc)) = set acc \<union> set kws"
proof (induction kws arbitrary: acc)
  case Nil
  then show ?case by simp
next
  case (Cons kw kws)
  show ?case
  proof (cases "kw \<in> set acc")
    case True
    have "extractKeywords_dedup (kw # kws) acc (\<lambda>k. k \<in> set acc)
        = extractKeywords_dedup kws acc (\<lambda>k. k \<in> set acc)"
      using True by simp
    moreover have "set acc \<union> set (kw # kws) = set acc \<union> set kws"
      using True by auto
    ultimately show ?thesis
      using Cons.IH [OF Cons.prems] by simp
  next
    case False
    have f: "(\<lambda>k. k \<in> set acc)(kw := True) = (\<lambda>k. k \<in> set (acc @ [kw]))"
      by (auto simp: fun_eq_iff)
    have e: "extractKeywords_dedup (kw # kws) acc (\<lambda>k. k \<in> set acc)
        = extractKeywords_dedup kws (acc @ [kw]) (\<lambda>k. k \<in> set (acc @ [kw]))"
      using False by (simp only: extractKeywords_dedup.simps f if_True not_False_eq_True)
    have d: "distinct (acc @ [kw])" using False Cons.prems by simp
    have u: "set (acc @ [kw]) \<union> set kws = set acc \<union> set (kw # kws)" by auto
    show ?thesis
      using Cons.IH [OF d] unfolding e u .
  qed
qed

lemma extractKeywords_collect_eq:
  "extractKeywords_collect lowerReq ts acc = acc @ filter (Contains lowerReq) ts"
  by (induction ts arbitrary: acc) auto

lemma extractKeywords_unfold:
  "extractKeywords ToLower requirement =
     (let u = extractKeywords_dedup (filter (Contains (ToLower requirement)) technicalTerms) []
                (\<lambda>k. k \<in> set [])
      in if length u > 10 then take 10 u else u)"
  by (simp add: extractKeywords_def Let_def extractKeywords_collect_eq)

lemma extractKeywords_set:
  "set (extractKeywords ToLower requirement)
     \<subseteq> {kw \<in> set technicalTerms. Contains (ToLower requirement) kw}"
proof -
  let ?u = "extractKeywords_dedup (filter (Contains (ToLower requirement)) technicalTerms) []
                (\<lambda>k. k \<in> set [])"
  have u: "set ?u = {kw \<in> set technicalTerms. Contains (ToLower requirement) kw}"
    using extractKeywords_dedup_props [of "[]"] by auto
  have "set (if length ?u > 10 then take 10 ?u else ?u) \<subseteq> set ?u"
    by (simp add: set_take_subset)
  then show ?thesis
    unfolding extractKeywords_unfold Let_def u .
qed

lemma extractKeywords_distinct: "distinct (extractKeywords ToLower requirement)"
proof -
  let ?u = "extractKeywords_dedup (filter (Contains (ToLower requirement)) technicalTerms) []
                (\<lambda>k. k \<in> set [])"
  have "distinct ?u"
    using extractKeywords_dedup_props [of "[]"] by simp
  then have "distinct (if length ?u > 10 then take 10 ?u else ?u)"
    by simp
  then show ?thesis
    unfolding extractKeywords_unfold Let_def .
qed

lemma extractKeywords_length: "length (extractKeywords ToLower requirement) \<le> 10"
proof -
  have "length (if length u > 10 then take 10 u else u) \<le> 10" for u :: "string list"
    by simp
  then show ?thesis unfolding extractKeywords_def Let_def .
qed

lemma technicalTerms_distinct: "distinct technicalTerms"
  by code_simp

lemma extractKeywords_example:
  "extractKeywords ascii_ToLower
      ''Filter and SORT the report chart data by column, row and cell of sheet 1 in the workbook range''
     = [''filter'', ''sort'', ''report'', ''chart'', ''data'', ''column'', ''row'', ''cell'',
        ''sheet'', ''workbook'']"
  by code_simp

subsection \<open>The fallback prompt and the prompt generator\<close>

lemma sublist_here: "sublist x (x @ b)"
  by (rule sublist_append_rightI)

lemma sublist_later: "sublist x b \<Longrightarrow> sublist x (a @ b)"
  by (metis sublist_append)

lemma fallbackPrompt_SheetName:
  "sublist (SheetName structure) (fallbackPrompt structure userRequirement config err)"
  unfolding fallbackPrompt_def
  by (rule sublist_later, rule sublist_later, rule sublist_later, rule sublist_later,
        rule sublist_later, rule sublist_later, rule sublist_later, rule sublist_later,
        rule sublist_later, rule sublist_later, rule sublist_later,
        rule sublist_here)

lemma fallbackPrompt_RangeAddress:
  "sublist (RangeAddress structure) (fallbackPrompt structure userRequirement config err)"
  unfolding fallbackPrompt_def
  by (rule sublist_later, rule sublist_later, rule sublist_later, rule sublist_later,
        rule sublist_later, rule sublist_later, rule sublist_later, rule sublist_later,
        rule sublist_later, rule sublist_later, rule sublist_later, rule sublist_later,
        rule sublist_later, rule sublist_later,
        rule sublist_here)

lemma fallbackPrompt_Headers:
  "sublist (Join (Headers structure) '', '') (fallbackPrompt structure userRequirement config err)"
  unfolding fallbackPrompt_def
  by (rule sublist_later, rule sublist_later, rule sublist_later, rule sublist_later,
        rule sublist_later, rule sublist_later, rule sublist_later, rule sublist_later,
        rule sublist_later, rule sublist_later, rule sublist_later, rule sublist_later,
        rule sublist_later, rule sublist_later, rule sublist_later, rule sublist_later,
        rule sublist_later,
        rule sublist_here)

lemma fallbackPrompt_userRequirement:
  "sublist userRequirement (fallbackPrompt structure userRequirement config err)"
  unfolding fallbackPrompt_def
  by (rule sublist_later, rule sublist_later, rule sublist_later, rule sublist_later,
        rule sublist_later, rule sublist_later, rule sublist_later, rule sublist_later,
        rule sublist_later, rule sublist_later, rule sublist_later, rule sublist_later,
        rule sublist_later, rule sublist_later, rule sublist_later, rule sublist_later,
        rule sublist_later, rule sublist_later, rule sublist_later, rule sublist_later,
        rule sublist_later, rule sublist_later, rule sublist_later, rule sublist_later,
        rule sublist_later,
        rule sublist_here)

lemma GenerateExaMCPPromptWithConfig_nonneg:
  assumes "0 \<le> MaxSampleRows config"
  shows "GenerateExaMCPPromptWithConfig env structure userRequirement config =
     Inr (case Parse env (getPromptTemplate env config) of
            Inl err \<Rightarrow> fallbackPrompt structure userRequirement config err
          | Inr tmpl \<Rightarrow>
              (case Execute env tmpl
                      (template_data env structure userRequirement config
                         (take (nat (MaxSampleRows config)) (SampleData structure))
                         (map (\<lambda>k. columnLetterFromIndex (int k)) [0..<length (Headers structure)])) of
                 Inl err \<Rightarrow> fallbackPrompt structure userRequirement config err
               | Inr buf \<Rightarrow> buf))"
proof -
  have l: "limitSampleData (SampleData structure) (MaxSampleRows config)
      = Inr (take (nat (MaxSampleRows config)) (SampleData structure))"
    using assms by (auto simp: limitSampleData_def)
  have g: "generateColumnLetters (int (length (Headers structure)))
      = Inr (map (\<lambda>k. columnLetterFromIndex (int k)) [0..<length (Headers structure)])"
    using generateColumnLetters_eq [of "int (length (Headers structure))"] by simp
  show ?thesis
    unfolding GenerateExaMCPPromptWithConfig_def Let_def l g
    by (simp split: sum.splits)
qed

subsection \<open>The analysis cache: hits, misses and requests in turn\<close>

lemma perform_fields [simp]:
  "a_config (perform e s) = a_config s"
  "world (perform e s) = world s"
  "a_excelAnalysis (perform e s) = a_excelAnalysis s"
  "a_filePath (perform e s) = a_filePath s"
  "effects (perform e s) = effects s @ [e]"
  by (simp_all add: perform_def)

lemma save_analysis_fields [simp]:
  "a_config (save_analysis pkg a file s) = a_config s"
  "world (save_analysis pkg a file s) = SaveAnalysisToCache pkg a file (world s)"
  "a_excelAnalysis (save_analysis pkg a file s) = a_excelAnalysis s"
  "a_filePath (save_analysis pkg a file s) = a_filePath s"
  "effects (save_analysis pkg a file s) = effects s @ [Save a file]"
  by (simp_all add: save_analysis_def)

lemma conclude_result:
  "fst (conclude filePath r s) =
     (case r of
        (analysis, Some err) \<Rightarrow> (None, Some (WrapError ''EXCEL_ANALYSIS_FAILED'' err))
      | (analysis, None) \<Rightarrow> (analysis, None))"
  by (auto simp: conclude_def split: prod.splits option.splits)

lemma conclude_fields [simp]:
  "a_config (snd (conclude filePath r s)) = a_config s"
  "world (snd (conclude filePath r s)) = world s"
  "effects (snd (conclude filePath r s)) =
     effects s @ [EventsEmit (if r = (None, None) then ''app:error'' else ''task:update'')]"
  "a_excelAnalysis (snd (conclude filePath r s)) =
     (case r of (Some a, None) \<Rightarrow> Some a | _ \<Rightarrow> a_excelAnalysis s)"
  by (auto simp: conclude_def split: prod.splits option.splits)

lemma AnalyzeExcelFile_hit:
  assumes "CacheEnabled (System (a_config s))"
    and "LoadAnalysisFromCache pkg (cacheFile pkg (a_config s) filePath) (world s) = (analysis, None)"
  shows "AnalyzeExcelFile pkg filePath s =
     conclude filePath (analysis, None)
       (perform (Load (cacheFile pkg (a_config s) filePath)) (perform (EventsEmit ''task:start'') s))"
  using assms by (simp add: AnalyzeExcelFile_def obtain_analysis_def Let_def)

lemma AnalyzeExcelFile_miss:
  assumes "CacheEnabled (System (a_config s))"
    and "LoadAnalysisFromCache pkg (cacheFile pkg (a_config s) filePath) (world s) = (x, Some e)"
  shows "AnalyzeExcelFile pkg filePath s =
     (let file = cacheFile pkg (a_config s) filePath;
          options = analysis_options (a_config s);
          r = excel_AnalyzeExcelFile pkg filePath options (world s);
          s2 = perform (Analyze filePath options)
                 (perform (Load file) (perform (EventsEmit ''task:start'') s))
      in conclude filePath r
           (case r of (Some a, None) \<Rightarrow> save_analysis pkg a file s2 | _ \<Rightarrow> s2))"
  using assms
  by (auto simp: AnalyzeExcelFile_def obtain_analysis_def run_analysis_def Let_def
      split: prod.splits option.splits)

lemma AnalyzeExcelFile_uncached:
  assumes "\<not> CacheEnabled (System (a_config s))"
  shows "AnalyzeExcelFile pkg filePath s =
     (let options = analysis_options (a_config s)
      in conclude filePath (excel_AnalyzeExcelFile pkg filePath options (world s))
           (perform (Analyze filePath options) (perform (EventsEmit ''task:start'') s)))"
  using assms
  by (simp add: AnalyzeExcelFile_def obtain_analysis_def run_analysis_def Let_def)

lemma analyses_performed_append:
  "effects s' = effects s @ es \<Longrightarrow>
   analyses_performed s' = analyses_performed s + length (filter is_Analyze es)"
  by (simp add: analyses_performed_def)

lemma is_Analyze_simps [simp]:
  "\<not> is_Analyze (EventsEmit n)" "\<not> is_Analyze (Load f)" "is_Analyze (Analyze p opts)"
  "\<not> is_Analyze (Save a f)"
  by (simp_all add: is_Analyze_def)

lemma AnalyzeExcelFile_hit_facts:
  assumes "CacheEnabled (System (a_config s))"
    and "LoadAnalysisFromCache pkg (cacheFile pkg (a_config s) filePath) (world s) = (analysis, None)"
  shows "fst (AnalyzeExcelFile pkg filePath s) = (analysis, None)"
    and "effects (snd (AnalyzeExcelFile pkg filePath s)) =
           effects s @ [EventsEmit ''task:start'', Load (cacheFile pkg (a_config s) filePath),
             EventsEmit (if analysis = None then ''app:error'' else ''task:update'')]"
    and "world (snd (AnalyzeExcelFile pkg filePath s)) = world s"
    and "a_config (snd (AnalyzeExcelFile pkg filePath s)) = a_config s"
    and "a_excelAnalysis (snd (AnalyzeExcelFile pkg filePath s)) =
           (case analysis of Some a \<Rightarrow> Some a | None \<Rightarrow> a_excelAnalysis s)"
    and "analyses_performed (snd (AnalyzeExcelFile pkg filePath s)) = analyses_performed s"
proof -
  note h = AnalyzeExcelFile_hit [OF assms]
  show "fst (AnalyzeExcelFile pkg filePath s) = (analysis, None)"
    unfolding h by (simp add: conclude_result)
  show e: "effects (snd (AnalyzeExcelFile pkg filePath s)) =
           effects s @ [EventsEmit ''task:start'', Load (cacheFile pkg (a_config s) filePath),
             EventsEmit (if analysis = None then ''app:error'' else ''task:update'')]"
    unfolding h by simp
  show "world (snd (AnalyzeExcelFile pkg filePath s)) = world s"
    unfolding h by simp
  show "a_config (snd (AnalyzeExcelFile pkg filePath s)) = a_config s"
    unfolding h by simp
  show "a_excelAnalysis (snd (AnalyzeExcelFile pkg filePath s)) =
           (case analysis of Some a \<Rightarrow> Some a | None \<Rightarrow> a_excelAnalysis s)"
    unfolding h by (simp split: option.splits)
  show "analyses_performed (snd (AnalyzeExcelFile pkg filePath s)) = analyses_performed s"
    using analyses_performed_append [OF e] by simp
qed

lemma AnalyzeExcelFile_miss_result:
  assumes "CacheEnabled (System (a_config s))"
    and "LoadAnalysisFromCache pkg (cacheFile pkg (a_config s) filePath) (world s) = (x, Some e)"
  shows "fst (AnalyzeExcelFile pkg filePath s) =
     (case excel_AnalyzeExcelFile pkg filePath (analysis_options (a_config s)) (world s) of
        (analysis, Some err) \<Rightarrow> (None, Some (WrapError ''EXCEL_ANALYSIS_FAILED'' err))
      | (analysis, None) \<Rightarrow> (analysis, None))"
  unfolding AnalyzeExcelFile_miss [OF assms] Let_def conclude_result ..

lemma AnalyzeExcelFile_uncached_result:
  assumes "\<not> CacheEnabled (System (a_config s))"
  shows "fst (AnalyzeExcelFile pkg filePath s) =
     (case excel_AnalyzeExcelFile pkg filePath (analysis_options (a_config s)) (world s) of
        (analysis, Some err) \<Rightarrow> (None, Some (WrapError ''EXCEL_ANALYSIS_FAILED'' err))
      | (analysis, None) \<Rightarrow> (analysis, None))"
  unfolding AnalyzeExcelFile_uncached [OF assms] Let_def conclude_result ..

lemma AnalyzeExcelFile_miss_success:
  assumes "CacheEnabled (System (a_config s))"
    and "LoadAnalysisFromCache pkg (cacheFile pkg (a_config s) filePath) (world s) = (x, Some e)"
    and "excel_AnalyzeExcelFile pkg filePath (analysis_options (a_config s)) (world s) = (Some a, None)"
  shows "fst (AnalyzeExcelFile pkg filePath s) = (Some a, None)"
    and "world (snd (AnalyzeExcelFile pkg filePath s))
           = SaveAnalysisToCache pkg a (cacheFile pkg (a_config s) filePath) (world s)"
    and "a_config (snd (AnalyzeExcelFile pkg filePath s)) = a_config s"
    and "analyses_performed (snd (AnalyzeExcelFile pkg filePath s)) = analyses_performed s + 1"
proof -
  note m = AnalyzeExcelFile_miss [OF assms(1,2)]
  show "fst (AnalyzeExcelFile pkg filePath s) = (Some a, None)"
    unfolding m Let_def conclude_result assms(3) by simp
  show "world (snd (AnalyzeExcelFile pkg filePath s))
           = SaveAnalysisToCache pkg a (cacheFile pkg (a_config s) filePath) (world s)"
    unfolding m Let_def assms(3) by simp
  show "a_config (snd (AnalyzeExcelFile pkg filePath s)) = a_config s"
    unfolding m Let_def assms(3) by simp
  have "effects (snd (AnalyzeExcelFile pkg filePath s)) =
      effects s @ [EventsEmit ''task:start'', Load (cacheFile pkg (a_config s) filePath),
        Analyze filePath (analysis_options (a_config s)), Save a (cacheFile pkg (a_config s) filePath),
        EventsEmit ''task:update'']"
    unfolding m Let_def assms(3) by simp
  from analyses_performed_append [OF this]
  show "analyses_performed (snd (AnalyzeExcelFile pkg filePath s)) = analyses_performed s + 1"
    by simp
qed

lemma serve_hits:
  assumes "CacheEnabled (System (a_config s))"
    and "LoadAnalysisFromCache pkg (cacheFile pkg (a_config s) filePath) (world s) = (Some a, None)"
  shows "fst (serve pkg filePath n s) = replicate n (Some a, None)
     \<and> analyses_performed (snd (serve pkg filePath n s)) = analyses_performed s"
  using assms
proof (induction n arbitrary: s)
  case 0
  then show ?case by simp
next
  case (Suc n)
  note f = AnalyzeExcelFile_hit_facts [OF Suc.prems]
  let ?s1 = "snd (AnalyzeExcelFile pkg filePath s)"
  have c: "CacheEnabled (System (a_config ?s1))" using f(4) Suc.prems(1) by simp
  have l: "LoadAnalysisFromCache pkg (cacheFile pkg (a_config ?s1) filePath) (world ?s1) = (Some a, None)"
    using f(3,4) Suc.prems(2) by simp
  from Suc.IH [OF c l] f(1,6) show ?case
    by (simp add: split_beta Let_def)
qed

lemma cacheFile_limits: "cacheFile pkg (cfg\<lparr>Excel := limits\<rparr>) filePath = cacheFile pkg cfg filePath"
  by (simp add: cacheFile_def)

lemma cacheFile_pkg_update [simp]:
  "cacheFile (pkg\<lparr>SaveAnalysisToCache := write\<rparr>) cfg filePath = cacheFile pkg cfg filePath"
  "cacheFile (pkg\<lparr>LoadAnalysisFromCache := read\<rparr>) cfg filePath = cacheFile pkg cfg filePath"
  by (simp_all add: cacheFile_def)

lemma AnalyzeExcelFile_write_irrelevant:
  "fst (AnalyzeExcelFile (pkg\<lparr>SaveAnalysisToCache := write\<rparr>) filePath s)
     = fst (AnalyzeExcelFile pkg filePath s)"
proof (cases "CacheEnabled (System (a_config s))")
  case False
  then show ?thesis by (simp add: AnalyzeExcelFile_uncached_result)
next
  case True
  obtain x err where l: "LoadAnalysisFromCache pkg (cacheFile pkg (a_config s) filePath) (world s)
      = (x, err)"
    by (cases "LoadAnalysisFromCache pkg (cacheFile pkg (a_config s) filePath) (world s)")
  show ?thesis
  proof (cases err)
    case None
    have a: "LoadAnalysisFromCache (pkg\<lparr>SaveAnalysisToCache := write\<rparr>)
        (cacheFile (pkg\<lparr>SaveAnalysisToCache := write\<rparr>) (a_config s) filePath) (world s) = (x, None)"
      using l None by simp
    have b: "LoadAnalysisFromCache pkg (cacheFile pkg (a_config s) filePath) (world s) = (x, None)"
      using l None by simp
    show ?thesis
      using AnalyzeExcelFile_hit_facts(1) [OF True a] AnalyzeExcelFile_hit_facts(1) [OF True b]
      by simp
  next
    case (Some e)
    have a: "LoadAnalysisFromCache (pkg\<lparr>SaveAnalysisToCache := write\<rparr>)
        (cacheFile (pkg\<lparr>SaveAnalysisToCache := write\<rparr>) (a_config s) filePath) (world s)
          = (x, Some e)"
      using l Some by simp
    have b: "LoadAnalysisFromCache pkg (cacheFile pkg (a_config s) filePath) (world s) = (x, Some e)"
      using l Some by simp
    show ?thesis
      using AnalyzeExcelFile_miss_result [OF True a] AnalyzeExcelFile_miss_result [OF True b]
      by simp
  qed
qed

lemma request_steps_alone:
  "request_steps pkg filePath 4 (Started, s)
     = (Returned (fst (AnalyzeExcelFile pkg filePath s)), snd (AnalyzeExcelFile pkg filePath s))"
proof (cases "CacheEnabled (System (a_config s))")
  case False
  then show ?thesis
    by (simp add: request_steps_def numeral_Bit0 funpow_add AnalyzeExcelFile_uncached
        Let_def run_analysis_def split_beta)
next
  case True
  obtain x err where l: "LoadAnalysisFromCache pkg (cacheFile pkg (a_config s) filePath) (world s)
      = (x, err)"
    by (cases "LoadAnalysisFromCache pkg (cacheFile pkg (a_config s) filePath) (world s)")
  show ?thesis
  proof (cases err)
    case None
    with l have h: "LoadAnalysisFromCache pkg (cacheFile pkg (a_config s) filePath) (world s)
      = (x, None)" by simp
    show ?thesis
      using True h
      by (simp add: request_steps_def numeral_Bit0 funpow_add AnalyzeExcelFile_hit [OF True h]
          Let_def split_beta)
  next
    case (Some e)
    with l have m: "LoadAnalysisFromCache pkg (cacheFile pkg (a_config s) filePath) (world s)
      = (x, Some e)" by simp
    obtain a err' where r: "excel_AnalyzeExcelFile pkg filePath (analysis_options (a_config s)) (world s)
      = (a, err')"
      by (cases "excel_AnalyzeExcelFile pkg filePath (analysis_options (a_config s)) (world s)")
    show ?thesis
      using True m r
      by (cases a; cases err')
        (simp_all add: request_steps_def numeral_Bit0 funpow_add AnalyzeExcelFile_miss [OF True m]
          Let_def run_analysis_def split_beta)
  qed
qed

lemma step_request:
  assumes "i < length (requests sys)"
  shows "step pkg filePath i sys =
     \<lparr> shared = snd (request_step pkg filePath (requests sys ! i) (shared sys)),
       requests = (requests sys)[i := fst (request_step pkg filePath (requests sys ! i) (shared sys))] \<rparr>"
  using assms by (simp add: step_def split_beta)

lemma run_replicate:
  assumes "i < length (requests sys)"
  shows "run pkg filePath (replicate n i) sys =
     \<lparr> shared = snd (request_steps pkg filePath n (requests sys ! i, shared sys)),
       requests = (requests sys)[i := fst (request_steps pkg filePath n (requests sys ! i, shared sys))] \<rparr>"
  using assms
proof (induction n arbitrary: sys)
  case 0
  then show ?case by (simp add: run_def request_steps_def)
next
  case (Suc n)
  let ?sys1 = "step pkg filePath i sys"
  have len: "i < length (requests ?sys1)"
    using Suc.prems by (simp add: step_request)
  have at: "requests ?sys1 ! i = fst (request_step pkg filePath (requests sys ! i) (shared sys))"
    using Suc.prems by (simp add: step_request)
  have sh: "shared ?sys1 = snd (request_step pkg filePath (requests sys ! i) (shared sys))"
    using Suc.prems by (simp add: step_request)
  have up: "(requests ?sys1)[i := r] = (requests sys)[i := r]" for r
    using Suc.prems by (simp add: step_request)
  have "run pkg filePath (replicate (Suc n) i) sys = run pkg filePath (replicate n i) ?sys1"
    by (simp add: run_def)
  also have "\<dots> = \<lparr> shared = snd (request_steps pkg filePath n (requests ?sys1 ! i, shared ?sys1)),
       requests = (requests ?sys1)[i := fst (request_steps pkg filePath n (requests ?sys1 ! i, shared ?sys1))] \<rparr>"
    by (rule Suc.IH [OF len])
  also have "request_steps pkg filePath n (requests ?sys1 ! i, shared ?sys1)
      = request_steps pkg filePath (Suc n) (requests sys ! i, shared sys)"
    unfolding at sh request_steps_def by (simp add: funpow_swap1 split_beta)
  finally show ?case unfolding up .
qed

lemma run_request_alone:
  assumes "i < length (requests sys)" and "requests sys ! i = Started"
  shows "run pkg filePath (replicate 4 i) sys =
     \<lparr> shared = snd (AnalyzeExcelFile pkg filePath (shared sys)),
       requests = (requests sys)[i := Returned (fst (AnalyzeExcelFile pkg filePath (shared sys)))] \<rparr>"
  unfolding run_replicate [OF assms(1)] assms(2) request_steps_alone by simp

subsection \<open>Overlapping requests: the invariant\<close>

lemma good_world_save:
  assumes "good_world pkg cfg filePath a w"
    and "\<And>w. excel_AnalyzeExcelFile pkg filePath (analysis_options cfg)
              (SaveAnalysisToCache pkg a (cacheFile pkg cfg filePath) w)
            = excel_AnalyzeExcelFile pkg filePath (analysis_options cfg) w"
    and "\<And>w. LoadAnalysisFromCache pkg (cacheFile pkg cfg filePath)
              (SaveAnalysisToCache pkg a (cacheFile pkg cfg filePath) w) = (Some a, None)"
  shows "good_world pkg cfg filePath a (SaveAnalysisToCache pkg a (cacheFile pkg cfg filePath) w)"
  using assms by (simp add: good_world_def)

lemma analyses_performed_perform [simp]:
  "analyses_performed (perform e s) = analyses_performed s + (if is_Analyze e then 1 else 0)"
  by (simp add: analyses_performed_def)

lemma analyses_performed_save [simp]:
  "analyses_performed (save_analysis pkg a file s) = analyses_performed s"
  by (simp add: analyses_performed_def)

lemma analyses_performed_conclude [simp]:
  "analyses_performed (snd (conclude filePath r s)) = analyses_performed s"
  by (simp add: analyses_performed_def)

lemma request_step_invariant:
  assumes en: "CacheEnabled (System (a_config s))"
    and gw: "good_world pkg (a_config s) filePath a (world s)"
    and st: "settled a r"
    and frame: "\<And>w. excel_AnalyzeExcelFile pkg filePath (analysis_options (a_config s))
              (SaveAnalysisToCache pkg a (cacheFile pkg (a_config s) filePath) w)
            = excel_AnalyzeExcelFile pkg filePath (analysis_options (a_config s)) w"
    and roundtrip: "\<And>w. LoadAnalysisFromCache pkg (cacheFile pkg (a_config s) filePath)
              (SaveAnalysisToCache pkg a (cacheFile pkg (a_config s) filePath) w) = (Some a, None)"
  shows "a_config (snd (request_step pkg filePath r s)) = a_config s
     \<and> good_world pkg (a_config s) filePath a (world (snd (request_step pkg filePath r s)))
     \<and> settled a (fst (request_step pkg filePath r s))
     \<and> analyses_performed (snd (request_step pkg filePath r s))
           + (if waiting (fst (request_step pkg filePath r s)) then 1 else 0)
         \<le> analyses_performed s + (if waiting r then 1 else 0)"
proof (cases r)
  case Started
  obtain x err where l: "LoadAnalysisFromCache pkg (cacheFile pkg (a_config s) filePath) (world s)
      = (x, err)"
    by (cases "LoadAnalysisFromCache pkg (cacheFile pkg (a_config s) filePath) (world s)")
  show ?thesis
  proof (cases err)
    case None
    with l gw have "x = Some a" by (simp add: good_world_def)
    with Started en l None gw show ?thesis
      by (simp add: Let_def settled_def waiting_def)
  next
    case (Some e)
    with Started en l gw show ?thesis
      by (simp add: Let_def settled_def waiting_def)
  qed
next
  case Computing
  have "excel_AnalyzeExcelFile pkg filePath (analysis_options (a_config s)) (world s) = (Some a, None)"
    using gw by (simp add: good_world_def)
  with Computing en gw show ?thesis
    by (simp add: Let_def run_analysis_def settled_def waiting_def)
next
  case (Saving b)
  with st have b: "b = a" by (simp add: settled_def)
  show ?thesis
    using good_world_save [OF gw frame roundtrip]
    by (simp add: Saving b settled_def waiting_def)
next
  case (Concluding res)
  with st have "res = (Some a, None)" by (simp add: settled_def)
  with Concluding gw show ?thesis
    by (simp add: Let_def split_beta settled_def waiting_def conclude_result)
next
  case (Returned res)
  with st gw show ?thesis by (simp add: settled_def waiting_def)
qed

lemma filter_update_count:
  "i < length xs \<Longrightarrow>
   length (filter P (xs[i := y])) + (if P (xs ! i) then 1 else 0)
     = length (filter P xs) + (if P y then 1 else 0)"
proof (induction xs arbitrary: i)
  case Nil
  then show ?case by simp
next
  case (Cons x xs)
  show ?case
  proof (cases i)
    case 0
    then show ?thesis by simp
  next
    case (Suc j)
    with Cons.prems have "j < length xs" by simp
    from Cons.IH [OF this] Suc show ?thesis by simp
  qed
qed

lemma list_all_update:
  "list_all P xs \<Longrightarrow> P y \<Longrightarrow> list_all P (xs[i := y])"
  unfolding list_all_iff using set_update_subset_insert [of xs i y] by blast

lemma step_invariant:
  assumes inv: "system_invariant pkg cfg filePath a bound sys"
    and en: "CacheEnabled (System cfg)"
    and frame: "\<And>w. excel_AnalyzeExcelFile pkg filePath (analysis_options cfg)
              (SaveAnalysisToCache pkg a (cacheFile pkg cfg filePath) w)
            = excel_AnalyzeExcelFile pkg filePath (analysis_options cfg) w"
    and roundtrip: "\<And>w. LoadAnalysisFromCache pkg (cacheFile pkg cfg filePath)
              (SaveAnalysisToCache pkg a (cacheFile pkg cfg filePath) w) = (Some a, None)"
  shows "system_invariant pkg cfg filePath a bound (step pkg filePath i sys)"
proof (cases "i < length (requests sys)")
  case False
  with inv show ?thesis by (simp add: step_def)
next
  case True
  let ?r = "requests sys ! i" and ?s = "shared sys"
  let ?q = "request_step pkg filePath ?r ?s"
  have c: "a_config ?s = cfg" and g: "good_world pkg cfg filePath a (world ?s)"
    and l: "list_all (settled a) (requests sys)"
    and b: "analyses_performed ?s + length (filter waiting (requests sys)) \<le> bound"
    using inv by (simp_all add: system_invariant_def)
  have sr: "settled a ?r" using l True by (simp add: list_all_length)
  have en': "CacheEnabled (System (a_config ?s))" using en c by simp
  have g': "good_world pkg (a_config ?s) filePath a (world ?s)" using g c by simp
  have f': "\<And>w. excel_AnalyzeExcelFile pkg filePath (analysis_options (a_config ?s))
              (SaveAnalysisToCache pkg a (cacheFile pkg (a_config ?s) filePath) w)
            = excel_AnalyzeExcelFile pkg filePath (analysis_options (a_config ?s)) w"
    using frame c by simp
  have r': "\<And>w. LoadAnalysisFromCache pkg (cacheFile pkg (a_config ?s) filePath)
              (SaveAnalysisToCache pkg a (cacheFile pkg (a_config ?s) filePath) w) = (Some a, None)"
    using roundtrip c by simp
  note k = request_step_invariant [OF en' g' sr f' r']
  have k1: "a_config (snd ?q) = cfg" using k c by simp
  have k2: "good_world pkg cfg filePath a (world (snd ?q))" using k c by simp
  have k3: "settled a (fst ?q)" using k by simp
  have k4: "analyses_performed (snd ?q) + (if waiting (fst ?q) then 1 else 0)
         \<le> analyses_performed ?s + (if waiting ?r then 1 else 0)"
    using k by simp
  have st: "step pkg filePath i sys = \<lparr> shared = snd ?q, requests = (requests sys)[i := fst ?q] \<rparr>"
    using True by (simp add: step_def split_beta)
  have cnt: "length (filter waiting ((requests sys)[i := fst ?q])) + (if waiting ?r then 1 else 0)
      = length (filter waiting (requests sys)) + (if waiting (fst ?q) then 1 else 0)"
    by (rule filter_update_count [OF True])
  have b': "analyses_performed (snd ?q) + length (filter waiting ((requests sys)[i := fst ?q]))
      \<le> bound"
    using k4 cnt b by (simp split: if_splits)
  show ?thesis
    unfolding st system_invariant_def
    using k1 k2 list_all_update [OF l k3] b' by simp
qed

lemma run_invariant:
  assumes inv: "system_invariant pkg cfg filePath a bound sys"
    and en: "CacheEnabled (System cfg)"
    and frame: "\<And>w. excel_AnalyzeExcelFile pkg filePath (analysis_options cfg)
              (SaveAnalysisToCache pkg a (cacheFile pkg cfg filePath) w)
            = excel_AnalyzeExcelFile pkg filePath (analysis_options cfg) w"
    and roundtrip: "\<And>w. LoadAnalysisFromCache pkg (cacheFile pkg cfg filePath)
              (SaveAnalysisToCache pkg a (cacheFile pkg cfg filePath) w) = (Some a, None)"
  shows "system_invariant pkg cfg filePath a bound (run pkg filePath schedule sys)"
  using inv
proof (induction schedule arbitrary: sys)
  case Nil
  then show ?case by (simp add: run_def)
next
  case (Cons i schedule)
  have "system_invariant pkg cfg filePath a bound (step pkg filePath i sys)"
    by (rule step_invariant [OF Cons.prems en frame roundtrip])
  from Cons.IH [OF this] show ?case by (simp add: run_def)
qed

lemma serve_once:
  assumes "CacheEnabled (System (a_config s))"
    and "LoadAnalysisFromCache pkg (cacheFile pkg (a_config s) filePath) (world s) = (x, Some e)"
    and "excel_AnalyzeExcelFile pkg filePath (analysis_options (a_config s)) (world s) = (Some a, None)"
    and "LoadAnalysisFromCache pkg (cacheFile pkg (a_config s) filePath)
           (SaveAnalysisToCache pkg a (cacheFile pkg (a_config s) filePath) (world s)) = (Some a, None)"
    and "0 < n"
  shows "fst (serve pkg filePath n s) = replicate n (Some a, None)
     \<and> analyses_performed (snd (serve pkg filePath n s)) = analyses_performed s + 1"
proof -
  obtain m where n: "n = Suc m" using assms(5) by (cases n) auto
  note f = AnalyzeExcelFile_miss_success [OF assms(1-3)]
  let ?s1 = "snd (AnalyzeExcelFile pkg filePath s)"
  have c: "CacheEnabled (System (a_config ?s1))" using f(3) assms(1) by simp
  have l: "LoadAnalysisFromCache pkg (cacheFile pkg (a_config ?s1) filePath) (world ?s1) = (Some a, None)"
    using f(2,3) assms(4) by simp
  from serve_hits [OF c l, of m] f(1,4) show ?thesis
    unfolding n by (simp add: split_beta Let_def)
qed

lemma initial_invariant:
  assumes "LoadAnalysisFromCache pkg (cacheFile pkg (a_config (shared sys)) filePath)
             (world (shared sys)) = (x, Some e)"
    and "excel_AnalyzeExcelFile pkg filePath (analysis_options (a_config (shared sys)))
           (world (shared sys)) = (Some a, None)"
    and "requests sys = replicate n Started"
  shows "system_invariant pkg (a_config (shared sys)) filePath a
           (analyses_performed (shared sys) + n) sys"
  using assms
  by (simp add: system_invariant_def good_world_def list_all_iff settled_def waiting_def)

lemma request_step_progress:
  "min 4 (progress r + 1) \<le> progress (fst (request_step pkg filePath r s))"
  by (cases r)
    (auto simp: progress_def Let_def run_analysis_def split_beta split: option.splits)

lemma step_length [simp]: "length (requests (step pkg filePath j sys)) = length (requests sys)"
  by (simp add: step_def split_beta)

lemma step_other:
  "j \<noteq> i \<Longrightarrow> requests (step pkg filePath j sys) ! i = requests sys ! i"
  by (simp add: step_def split_beta)

lemma step_progress:
  assumes "i < length (requests sys)"
  shows "min 4 (progress (requests sys ! i) + (if j = i then 1 else 0))
           \<le> progress (requests (step pkg filePath j sys) ! i)"
proof (cases "j = i")
  case True
  have "requests (step pkg filePath i sys) ! i
      = fst (request_step pkg filePath (requests sys ! i) (shared sys))"
    using assms by (simp add: step_def split_beta)
  with True request_step_progress [of "requests sys ! i" pkg filePath "shared sys"]
  show ?thesis by simp
next
  case False
  then show ?thesis by (simp add: step_other)
qed

lemma run_progress:
  assumes "i < length (requests sys)"
  shows "min 4 (progress (requests sys ! i) + count_list schedule i)
           \<le> progress (requests (run pkg filePath schedule sys) ! i)"
  using assms
proof (induction schedule arbitrary: sys)
  case Nil
  then show ?case by (simp add: run_def)
next
  case (Cons j schedule)
  let ?sys1 = "step pkg filePath j sys"
  have len: "i < length (requests ?sys1)" using Cons.prems by simp
  have a: "min 4 (progress (requests sys ! i) + (if j = i then 1 else 0))
      \<le> progress (requests ?sys1 ! i)"
    by (rule step_progress [OF Cons.prems])
  have b: "min 4 (progress (requests ?sys1 ! i) + count_list schedule i)
      \<le> progress (requests (run pkg filePath schedule ?sys1) ! i)"
    by (rule Cons.IH [OF len])
  have r: "run pkg filePath (j # schedule) sys = run pkg filePath schedule ?sys1"
    by (simp add: run_def)
  show ?case
    unfolding r using a b by (auto simp: min_def split: if_splits)
qed

lemma run_length [simp]:
  "length (requests (run pkg filePath schedule sys)) = length (requests sys)"
  by (induction schedule arbitrary: sys) (simp_all add: run_def)

lemma progress_4: "4 \<le> progress r \<Longrightarrow> \<exists>res. r = Returned res"
  by (cases r) (simp_all add: progress_def)

lemma run_returns:
  assumes "i < length (requests sys)" and "4 \<le> count_list schedule i"
  shows "\<exists>res. requests (run pkg filePath schedule sys) ! i = Returned res"
proof -
  have "4 \<le> progress (requests (run pkg filePath schedule sys) ! i)"
    using run_progress [OF assms(1), of schedule pkg filePath] assms(2) by simp
  then show ?thesis by (rule progress_4)
qed

subsection \<open>The claims\<close>

text \<open>
  C1 as stated fails: two limit configurations that differ in \<open>MaxSheets\<close> give the same
  cache file for the same path, and a request under the second configuration returns
  the analysis cached under the first (one sheet), where a fresh analysis under the
  second lists two sheets.
\<close>

theorem cacheFile_same_for_different_limits:
  "limits_a \<noteq> limits_b
   \<and> cacheFile memory_pkg \<lparr> Excel = limits_a, System = caching \<rparr> ''book.xlsx''
       = cacheFile memory_pkg \<lparr> Excel = limits_b, System = caching \<rparr> ''book.xlsx''
   \<and> fst (AnalyzeExcelFile memory_pkg ''book.xlsx'' (boot limits_b))
       = (Some [''Orders'', ''Customers''], None)
   \<and> fst (AnalyzeExcelFile memory_pkg ''book.xlsx''
            ((snd (AnalyzeExcelFile memory_pkg ''book.xlsx'' (boot limits_a)))
               \<lparr>a_config := \<lparr> Excel = limits_b, System = caching \<rparr>\<rparr>))
       = (Some [''Orders''], None)"
  by code_simp

text \<open>
  C1, amended. The cache key used by \<open>AnalyzeExcelFile\<close> is computed from the cache
  directory and the file path alone and not from the limit configuration: for every file
  path, requests that differ only in limit settings use the same cache file, so with
  caching enabled a request returns the analysis cached for the path under every limit
  configuration.
\<close>

theorem cacheFile_independent_of_limits:
  assumes "CacheEnabled (System (a_config s))"
    and "LoadAnalysisFromCache pkg (cacheFile pkg (a_config s) filePath) (world s) = (analysis, None)"
  shows "cacheFile pkg (a_config s) filePath
           = filepath_Join pkg (CacheDir (System (a_config s))) (HashFilePath pkg filePath @ ''.json'')
     \<and> cacheFile pkg ((a_config s)\<lparr>Excel := limits\<rparr>) filePath = cacheFile pkg (a_config s) filePath
     \<and> fst (AnalyzeExcelFile pkg filePath (s\<lparr>a_config := (a_config s)\<lparr>Excel := limits\<rparr>\<rparr>))
           = (analysis, None)"
proof -
  let ?s = "s\<lparr>a_config := (a_config s)\<lparr>Excel := limits\<rparr>\<rparr>"
  have c: "CacheEnabled (System (a_config ?s))" using assms(1) by simp
  have l: "LoadAnalysisFromCache pkg (cacheFile pkg (a_config ?s) filePath) (world ?s) = (analysis, None)"
    using assms(2) by (simp add: cacheFile_limits)
  show ?thesis
    using AnalyzeExcelFile_hit_facts(1) [OF c l]
    by (simp add: cacheFile_limits) (simp add: cacheFile_def)
qed

theorem cacheFile_independent_of_limits_witness:
  "CacheEnabled (System (a_config warm))
   \<and> LoadAnalysisFromCache memory_pkg (cacheFile memory_pkg (a_config warm) ''book.xlsx'') (world warm)
       = (Some [''Orders''], None)
   \<and> cacheFile memory_pkg ((a_config warm)\<lparr>Excel := limits_a\<rparr>) ''book.xlsx''
       = cacheFile memory_pkg (a_config warm) ''book.xlsx''
   \<and> fst (AnalyzeExcelFile memory_pkg ''book.xlsx'' (warm\<lparr>a_config := (a_config warm)\<lparr>Excel := limits_a\<rparr>\<rparr>))
       = (Some [''Orders''], None)"
proof -
  have c: "CacheEnabled (System (a_config warm))" by code_simp
  have l: "LoadAnalysisFromCache memory_pkg (cacheFile memory_pkg (a_config warm) ''book.xlsx'')
      (world warm) = (Some [''Orders''], None)"
    by code_simp
  from cacheFile_independent_of_limits [OF c l, of limits_a] c l show ?thesis by blast
qed

text \<open>
  C2. With caching enabled, two requests for the same path under the same configuration
  read the same cache file, whatever the workbooks hold when each request runs (\<open>s1\<close>
  and \<open>s2\<close> have arbitrary worlds): the key is a function of the cache directory and the
  path. If the cache file still holds an analysis \<open>a\<close> when the second request runs, the
  second request returns \<open>a\<close> without computing, whatever the workbook holds by then.
\<close>

theorem AnalyzeExcelFile_key_from_path_not_content:
  assumes "CacheEnabled (System (a_config s1))"
    and "a_config s2 = a_config s1"
    and "LoadAnalysisFromCache pkg (cacheFile pkg (a_config s1) filePath) (world s2) = (Some a, None)"
  shows "take 2 (drop (length (effects s1)) (effects (snd (AnalyzeExcelFile pkg filePath s1))))
           = [EventsEmit ''task:start'', Load (cacheFile pkg (a_config s1) filePath)]
     \<and> take 2 (drop (length (effects s2)) (effects (snd (AnalyzeExcelFile pkg filePath s2))))
           = [EventsEmit ''task:start'', Load (cacheFile pkg (a_config s1) filePath)]
     \<and> fst (AnalyzeExcelFile pkg filePath s2) = (Some a, None)
     \<and> analyses_performed (snd (AnalyzeExcelFile pkg filePath s2)) = analyses_performed s2"
proof -
  have c2: "CacheEnabled (System (a_config s2))" using assms(1,2) by simp
  have l2: "LoadAnalysisFromCache pkg (cacheFile pkg (a_config s2) filePath) (world s2) = (Some a, None)"
    using assms(2,3) by simp
  note f = AnalyzeExcelFile_hit_facts [OF c2 l2]
  have k1: "take 2 (drop (length (effects s1)) (effects (snd (AnalyzeExcelFile pkg filePath s1))))
           = [EventsEmit ''task:start'', Load (cacheFile pkg (a_config s1) filePath)]"
  proof (cases "LoadAnalysisFromCache pkg (cacheFile pkg (a_config s1) filePath) (world s1)")
    case (Pair x err)
    show ?thesis
    proof (cases err)
      case None
      with Pair AnalyzeExcelFile_hit_facts(2) [OF assms(1), of pkg filePath x] show ?thesis by simp
    next
      case (Some e)
      with Pair have m: "LoadAnalysisFromCache pkg (cacheFile pkg (a_config s1) filePath) (world s1)
          = (x, Some e)" by simp
      show ?thesis
        unfolding AnalyzeExcelFile_miss [OF assms(1) m] Let_def
        by (simp split: prod.splits option.splits)
    qed
  qed
  have k2: "take 2 (drop (length (effects s2)) (effects (snd (AnalyzeExcelFile pkg filePath s2))))
           = [EventsEmit ''task:start'', Load (cacheFile pkg (a_config s1) filePath)]"
    using f(2) assms(2) by simp
  show ?thesis using k1 k2 f(1,6) by blast
qed

theorem AnalyzeExcelFile_key_from_path_not_content_witness:
  "CacheEnabled (System (a_config (boot limits_b)))
   \<and> fst (AnalyzeExcelFile memory_pkg ''book.xlsx'' (boot limits_b))
       = (Some [''Orders'', ''Customers''], None)
   \<and> excel_AnalyzeExcelFile memory_pkg ''book.xlsx'' (analysis_options (a_config (boot limits_b)))
        (world (rewrite_workbook ''book.xlsx'' [''Invoices'']
                  (snd (AnalyzeExcelFile memory_pkg ''book.xlsx'' (boot limits_b)))))
       = (Some [''Invoices''], None)
   \<and> fst (AnalyzeExcelFile memory_pkg ''book.xlsx''
            (rewrite_workbook ''book.xlsx'' [''Invoices'']
               (snd (AnalyzeExcelFile memory_pkg ''book.xlsx'' (boot limits_b)))))
       = (Some [''Orders'', ''Customers''], None)"
proof -
  let ?s1 = "boot limits_b"
  let ?s2 = "rewrite_workbook ''book.xlsx'' [''Invoices'']
               (snd (AnalyzeExcelFile memory_pkg ''book.xlsx'' (boot limits_b)))"
  have c: "CacheEnabled (System (a_config ?s1))" by code_simp
  have g: "a_config ?s2 = a_config ?s1" by code_simp
  have l: "LoadAnalysisFromCache memory_pkg (cacheFile memory_pkg (a_config ?s1) ''book.xlsx'')
      (world ?s2) = (Some [''Orders'', ''Customers''], None)"
    by code_simp
  have r1: "fst (AnalyzeExcelFile memory_pkg ''book.xlsx'' ?s1)
       = (Some [''Orders'', ''Customers''], None)"
    by code_simp
  have fresh: "excel_AnalyzeExcelFile memory_pkg ''book.xlsx'' (analysis_options (a_config ?s1))
        (world ?s2) = (Some [''Invoices''], None)"
    by code_simp
  from AnalyzeExcelFile_key_from_path_not_content [OF c g l] c r1 fresh
  show ?thesis by blast
qed

text \<open>
  C3 as stated fails: two requests for the same path that both read the cache before
  either has written it both run the analysis computation.
\<close>

theorem interleaved_requests_compute_twice:
  "requests two_requests = [Started, Started]
   \<and> CacheEnabled (System (a_config (shared two_requests)))
   \<and> requests (run memory_pkg ''book.xlsx'' [0, 1, 0, 1, 0, 1, 0, 1] two_requests)
       = [Returned (Some [''Orders''], None), Returned (Some [''Orders''], None)]
   \<and> analyses_performed (shared (run memory_pkg ''book.xlsx'' [0, 1, 0, 1, 0, 1, 0, 1] two_requests))
       = 2"
  by code_simp

text \<open>
  C3, amended. \<open>AnalyzeExcelFile\<close> keeps no record of computations in flight and makes no
  request wait. Let \<open>n > 0\<close> requests for the same path start with caching enabled on a
  cache that misses, a workbook whose analysis succeeds with \<open>a\<close>, and a cache that
  returns what was written and whose writes leave the workbook as it is. Served one after
  the other, the requests perform exactly one analysis computation and all receive \<open>a\<close>.
  Overlapping in any way (every schedule), every request that has returned has received
  \<open>a\<close>, every request returns once it has taken its four steps, and at most \<open>n\<close>
  analysis computations are performed.
\<close>

theorem requests_same_result_up_to_n_computations:
  assumes en: "CacheEnabled (System (a_config (shared sys)))"
    and miss: "LoadAnalysisFromCache pkg (cacheFile pkg (a_config (shared sys)) filePath)
                 (world (shared sys)) = (x, Some e)"
    and ok: "excel_AnalyzeExcelFile pkg filePath (analysis_options (a_config (shared sys)))
               (world (shared sys)) = (Some a, None)"
    and frame: "\<And>w. excel_AnalyzeExcelFile pkg filePath (analysis_options (a_config (shared sys)))
              (SaveAnalysisToCache pkg a (cacheFile pkg (a_config (shared sys)) filePath) w)
            = excel_AnalyzeExcelFile pkg filePath (analysis_options (a_config (shared sys))) w"
    and roundtrip: "\<And>w. LoadAnalysisFromCache pkg (cacheFile pkg (a_config (shared sys)) filePath)
              (SaveAnalysisToCache pkg a (cacheFile pkg (a_config (shared sys)) filePath) w)
            = (Some a, None)"
    and start: "requests sys = replicate n Started"
    and pos: "0 < n"
  shows "fst (serve pkg filePath n (shared sys)) = replicate n (Some a, None)
     \<and> analyses_performed (snd (serve pkg filePath n (shared sys)))
           = analyses_performed (shared sys) + 1
     \<and> (\<forall>schedule res. Returned res \<in> set (requests (run pkg filePath schedule sys))
            \<longrightarrow> res = (Some a, None))
     \<and> (\<forall>schedule. (\<forall>i<n. 4 \<le> count_list schedule i) \<longrightarrow>
            requests (run pkg filePath schedule sys) = replicate n (Returned (Some a, None)))
     \<and> (\<forall>schedule. analyses_performed (shared (run pkg filePath schedule sys))
            \<le> analyses_performed (shared sys) + n)"
proof -
  note one = serve_once [OF en miss ok roundtrip pos]
  have inv: "system_invariant pkg (a_config (shared sys)) filePath a
      (analyses_performed (shared sys) + n) (run pkg filePath schedule sys)" for schedule
    by (rule run_invariant [OF initial_invariant [OF miss ok start] en frame roundtrip])
  have same: "res = (Some a, None)"
    if "Returned res \<in> set (requests (run pkg filePath schedule sys))" for schedule res
  proof -
    have "list_all (settled a) (requests (run pkg filePath schedule sys))"
      using inv [of schedule] by (simp add: system_invariant_def)
    with that have "settled a (Returned res)" by (simp add: list_all_iff)
    then show ?thesis by (simp add: settled_def)
  qed
  have most: "analyses_performed (shared (run pkg filePath schedule sys))
      \<le> analyses_performed (shared sys) + n" for schedule
    using inv [of schedule] by (simp add: system_invariant_def)
  have all: "requests (run pkg filePath schedule sys) = replicate n (Returned (Some a, None))"
    if f: "\<forall>i<n. 4 \<le> count_list schedule i" for schedule
  proof (rule nth_equalityI)
    show "length (requests (run pkg filePath schedule sys))
        = length (replicate n (Returned (Some a, None)))"
      using start by simp
  next
    fix i assume "i < length (requests (run pkg filePath schedule sys))"
    then have i: "i < n" using start by simp
    then have l: "i < length (requests sys)" using start by simp
    from f i have "4 \<le> count_list schedule i" by simp
    from run_returns [OF l this] obtain res
      where r: "requests (run pkg filePath schedule sys) ! i = Returned res" by blast
    have "Returned res \<in> set (requests (run pkg filePath schedule sys))"
      using r l by (metis nth_mem run_length)
    from same [OF this] r i
    show "requests (run pkg filePath schedule sys) ! i = replicate n (Returned (Some a, None)) ! i"
      by simp
  qed
  show ?thesis using one same all most by blast
qed

theorem requests_same_result_up_to_n_computations_witness:
  "CacheEnabled (System (a_config (shared two_requests)))
   \<and> requests two_requests = replicate 2 Started
   \<and> fst (serve memory_pkg ''book.xlsx'' 2 (shared two_requests))
       = [(Some [''Orders''], None), (Some [''Orders''], None)]
   \<and> analyses_performed (snd (serve memory_pkg ''book.xlsx'' 2 (shared two_requests))) = 1
   \<and> Returned (Some [''Orders''], None)
       \<in> set (requests (run memory_pkg ''book.xlsx'' [0, 1, 0, 1, 0, 1, 0, 1] two_requests))
   \<and> count_list [0, 1, 0, 1, 0, 1, 0, 1] (0::nat) = 4
   \<and> count_list [0, 1, 0, 1, 0, 1, 0, 1] (1::nat) = 4
   \<and> requests (run memory_pkg ''book.xlsx'' [0, 1, 0, 1, 0, 1, 0, 1] two_requests)
       = [Returned (Some [''Orders''], None), Returned (Some [''Orders''], None)]
   \<and> analyses_performed (shared (run memory_pkg ''book.xlsx'' [0, 1, 0, 1, 0, 1, 0, 1] two_requests))
       \<le> 2"
proof -
  let ?cfg = "a_config (shared two_requests)"
  let ?file = "cacheFile memory_pkg ?cfg ''book.xlsx''"
  have en: "CacheEnabled (System ?cfg)" by code_simp
  have miss: "LoadAnalysisFromCache memory_pkg ?file (world (shared two_requests))
      = (None, Some (Error ''no cache file''))"
    by code_simp
  have ok: "excel_AnalyzeExcelFile memory_pkg ''book.xlsx'' (analysis_options ?cfg)
      (world (shared two_requests)) = (Some [''Orders''], None)"
    by code_simp
  have frame: "excel_AnalyzeExcelFile memory_pkg ''book.xlsx'' (analysis_options ?cfg)
      (SaveAnalysisToCache memory_pkg [''Orders''] ?file w)
        = excel_AnalyzeExcelFile memory_pkg ''book.xlsx'' (analysis_options ?cfg) w" for w
    by (simp add: memory_pkg_def)
  have roundtrip: "LoadAnalysisFromCache memory_pkg ?file
      (SaveAnalysisToCache memory_pkg [''Orders''] ?file w) = (Some [''Orders''], None)" for w
    by (simp add: memory_pkg_def)
  have start: "requests two_requests = replicate 2 Started"
    by (simp add: two_requests_def numeral_2_eq_2)
  have pos: "(0::nat) < 2" by simp
  note t = requests_same_result_up_to_n_computations [OF en miss ok frame roundtrip start pos]
  have z: "analyses_performed (shared two_requests) = 0" by code_simp
  have got: "Returned (Some [''Orders''], None)
       \<in> set (requests (run memory_pkg ''book.xlsx'' [0, 1, 0, 1, 0, 1, 0, 1] two_requests))"
    by code_simp
  have a: "fst (serve memory_pkg ''book.xlsx'' 2 (shared two_requests))
       = [(Some [''Orders''], None), (Some [''Orders''], None)]"
    using t by (simp add: numeral_2_eq_2)
  have b: "analyses_performed (snd (serve memory_pkg ''book.xlsx'' 2 (shared two_requests))) = 1"
    using t z by simp
  have c: "analyses_performed (shared (run memory_pkg ''book.xlsx'' [0, 1, 0, 1, 0, 1, 0, 1]
      two_requests)) \<le> 2"
    using t z by (metis add_0)
  have n0: "count_list [0, 1, 0, 1, 0, 1, 0, 1] (0::nat) = 4"
    and n1: "count_list [0, 1, 0, 1, 0, 1, 0, 1] (1::nat) = 4"
    by simp_all
  have fair: "\<forall>i<2. 4 \<le> count_list [0, 1, 0, 1, 0, 1, 0, 1] (i::nat)"
  proof (intro allI impI)
    fix i :: nat assume "i < 2"
    then have "i = 0 \<or> i = 1" by auto
    then show "4 \<le> count_list [0, 1, 0, 1, 0, 1, 0, 1] i" using n0 n1 by auto
  qed
  have d: "requests (run memory_pkg ''book.xlsx'' [0, 1, 0, 1, 0, 1, 0, 1] two_requests)
       = [Returned (Some [''Orders''], None), Returned (Some [''Orders''], None)]"
    using t fair by (simp add: numeral_2_eq_2)
  show ?thesis using en start a b got n0 n1 c d by blast
qed

text \<open>
  C4. With caching enabled, when the cache read fails \<open>AnalyzeExcelFile\<close> returns what the
  analysis computation gives (the analysis, or the wrapped error of the analysis), which
  is what it returns with caching disabled; the result does not depend on the error of
  the cache read, nor on what \<open>SaveAnalysisToCache\<close> does.
\<close>

theorem AnalyzeExcelFile_cache_failures_not_fatal:
  assumes "CacheEnabled (System (a_config s))"
    and "LoadAnalysisFromCache pkg (cacheFile pkg (a_config s) filePath) (world s) = (x, Some e)"
  shows "fst (AnalyzeExcelFile pkg filePath s) =
           (case excel_AnalyzeExcelFile pkg filePath (analysis_options (a_config s)) (world s) of
              (analysis, Some err) \<Rightarrow> (None, Some (WrapError ''EXCEL_ANALYSIS_FAILED'' err))
            | (analysis, None) \<Rightarrow> (analysis, None))
     \<and> fst (AnalyzeExcelFile pkg filePath s) =
           fst (AnalyzeExcelFile pkg filePath
                  (s\<lparr>a_config := (a_config s)\<lparr>System := (System (a_config s))\<lparr>CacheEnabled := False\<rparr>\<rparr>\<rparr>))
     \<and> (\<forall>x' e'. fst (AnalyzeExcelFile (pkg\<lparr>LoadAnalysisFromCache := (\<lambda>file w. (x', Some e'))\<rparr>) filePath s)
                  = fst (AnalyzeExcelFile pkg filePath s))
     \<and> (\<forall>write. fst (AnalyzeExcelFile (pkg\<lparr>SaveAnalysisToCache := write\<rparr>) filePath s)
                  = fst (AnalyzeExcelFile pkg filePath s))"
proof -
  note m = AnalyzeExcelFile_miss_result [OF assms]
  let ?u = "s\<lparr>a_config := (a_config s)\<lparr>System := (System (a_config s))\<lparr>CacheEnabled := False\<rparr>\<rparr>\<rparr>"
  have u: "\<not> CacheEnabled (System (a_config ?u))" by simp
  have o: "analysis_options (a_config ?u) = analysis_options (a_config s)"
    by (simp add: analysis_options_def)
  have b: "fst (AnalyzeExcelFile pkg filePath s) = fst (AnalyzeExcelFile pkg filePath ?u)"
    unfolding m AnalyzeExcelFile_uncached_result [OF u] o by simp
  have c: "fst (AnalyzeExcelFile (pkg\<lparr>LoadAnalysisFromCache := (\<lambda>file w. (x', Some e'))\<rparr>) filePath s)
                  = fst (AnalyzeExcelFile pkg filePath s)" for x' e'
  proof -
    let ?p = "pkg\<lparr>LoadAnalysisFromCache := (\<lambda>file w. (x', Some e'))\<rparr>"
    have "LoadAnalysisFromCache ?p (cacheFile ?p (a_config s) filePath) (world s) = (x', Some e')"
      by simp
    from AnalyzeExcelFile_miss_result [OF assms(1) this] show ?thesis
      unfolding m by simp
  qed
  show ?thesis
    using m b c AnalyzeExcelFile_write_irrelevant by blast
qed

theorem AnalyzeExcelFile_cache_failures_not_fatal_witness:
  "CacheEnabled (System (a_config (boot limits_a)))
   \<and> LoadAnalysisFromCache memory_pkg
        (cacheFile memory_pkg (a_config (boot limits_a)) ''book.xlsx'') (world (boot limits_a))
       = (None, Some (Error ''no cache file''))
   \<and> fst (AnalyzeExcelFile memory_pkg ''book.xlsx'' (boot limits_a)) = (Some [''Orders''], None)
   \<and> fst (AnalyzeExcelFile lost_writes_pkg ''book.xlsx'' (boot limits_a)) = (Some [''Orders''], None)
   \<and> LoadAnalysisFromCache memory_pkg
        (cacheFile memory_pkg (a_config (boot limits_a)) ''gone.xlsx'') (world (boot limits_a))
       = (None, Some (Error ''no cache file''))
   \<and> fst (AnalyzeExcelFile memory_pkg ''gone.xlsx'' (boot limits_a))
       = (None, Some (WrapError ''EXCEL_ANALYSIS_FAILED'' (Error ''cannot open workbook'')))"
proof -
  have c: "CacheEnabled (System (a_config (boot limits_a)))" by code_simp
  have l: "LoadAnalysisFromCache memory_pkg
        (cacheFile memory_pkg (a_config (boot limits_a)) ''book.xlsx'') (world (boot limits_a))
       = (None, Some (Error ''no cache file''))"
    by code_simp
  have l': "LoadAnalysisFromCache memory_pkg
        (cacheFile memory_pkg (a_config (boot limits_a)) ''gone.xlsx'') (world (boot limits_a))
       = (None, Some (Error ''no cache file''))"
    by code_simp
  have a: "excel_AnalyzeExcelFile memory_pkg ''book.xlsx'' (analysis_options (a_config (boot limits_a)))
        (world (boot limits_a)) = (Some [''Orders''], None)"
    by code_simp
  have a': "excel_AnalyzeExcelFile memory_pkg ''gone.xlsx'' (analysis_options (a_config (boot limits_a)))
        (world (boot limits_a)) = (None, Some (Error ''cannot open workbook''))"
    by code_simp
  note t = AnalyzeExcelFile_cache_failures_not_fatal [OF c l]
  note t' = AnalyzeExcelFile_cache_failures_not_fatal [OF c l']
  have r: "fst (AnalyzeExcelFile memory_pkg ''book.xlsx'' (boot limits_a)) = (Some [''Orders''], None)"
    using t unfolding a by simp
  have "fst (AnalyzeExcelFile (memory_pkg\<lparr>SaveAnalysisToCache := (\<lambda>a file w. w)\<rparr>) ''book.xlsx''
      (boot limits_a)) = fst (AnalyzeExcelFile memory_pkg ''book.xlsx'' (boot limits_a))"
    using t by blast
  then have w: "fst (AnalyzeExcelFile lost_writes_pkg ''book.xlsx'' (boot limits_a))
      = (Some [''Orders''], None)"
    unfolding lost_writes_pkg_def r .
  have r': "fst (AnalyzeExcelFile memory_pkg ''gone.xlsx'' (boot limits_a))
       = (None, Some (WrapError ''EXCEL_ANALYSIS_FAILED'' (Error ''cannot open workbook'')))"
    using t' unfolding a' by simp
  show ?thesis using c l r w l' r' by blast
qed

text \<open>
  C5. With caching enabled, whenever \<open>LoadAnalysisFromCache\<close> succeeds for the request's
  cache file, \<open>AnalyzeExcelFile\<close> returns the loaded analysis and no error; it makes three
  calls to the outside (the start event, the cache read, the closing event), none of them
  an analysis computation; it leaves the world as it was, and stores the loaded analysis
  in the \<^verbatim>\<open>App\<close>.
\<close>

theorem AnalyzeExcelFile_cache_hit_unchanged:
  assumes "CacheEnabled (System (a_config s))"
    and "LoadAnalysisFromCache pkg (cacheFile pkg (a_config s) filePath) (world s) = (analysis, None)"
  shows "fst (AnalyzeExcelFile pkg filePath s) = (analysis, None)
     \<and> effects (snd (AnalyzeExcelFile pkg filePath s)) =
           effects s @ [EventsEmit ''task:start'', Load (cacheFile pkg (a_config s) filePath),
             EventsEmit (if analysis = None then ''app:error'' else ''task:update'')]
     \<and> analyses_performed (snd (AnalyzeExcelFile pkg filePath s)) = analyses_performed s
     \<and> world (snd (AnalyzeExcelFile pkg filePath s)) = world s
     \<and> a_excelAnalysis (snd (AnalyzeExcelFile pkg filePath s)) =
           (case analysis of Some a \<Rightarrow> Some a | None \<Rightarrow> a_excelAnalysis s)"
  using AnalyzeExcelFile_hit_facts [OF assms] by blast

theorem AnalyzeExcelFile_cache_hit_unchanged_witness:
  "CacheEnabled (System (a_config warm))
   \<and> LoadAnalysisFromCache memory_pkg (cacheFile memory_pkg (a_config warm) ''book.xlsx'') (world warm)
       = (Some [''Orders''], None)
   \<and> fst (AnalyzeExcelFile memory_pkg ''book.xlsx'' warm) = (Some [''Orders''], None)
   \<and> effects (snd (AnalyzeExcelFile memory_pkg ''book.xlsx'' warm))
       = [EventsEmit ''task:start'', Load ''cache/book.xlsx.json'', EventsEmit ''task:update'']
   \<and> analyses_performed (snd (AnalyzeExcelFile memory_pkg ''book.xlsx'' warm)) = 0"
proof -
  have c: "CacheEnabled (System (a_config warm))" by code_simp
  have l: "LoadAnalysisFromCache memory_pkg (cacheFile memory_pkg (a_config warm) ''book.xlsx'')
      (world warm) = (Some [''Orders''], None)"
    by code_simp
  have k: "cacheFile memory_pkg (a_config warm) ''book.xlsx'' = ''cache/book.xlsx.json''"
    by code_simp
  have e: "effects warm = []" "analyses_performed warm = 0" by code_simp+
  from AnalyzeExcelFile_cache_hit_unchanged [OF c l] c l show ?thesis
    unfolding k e by simp
qed

text \<open>
  C6. For a non-negative row cap, \<open>limitSampleData\<close> does not panic and returns the first
  \<open>min cap (number of rows)\<close> rows of its input in their order: the whole input when it
  has at most \<open>cap\<close> rows and exactly the first \<open>cap\<close> rows otherwise. The result has at
  most \<open>cap\<close> rows and at most as many rows as the input.
\<close>

theorem limitSampleData_bounded_prefix:
  assumes "0 \<le> cap"
  shows "\<exists>out. limitSampleData rows cap = Inr out
           \<and> out = take (min (nat cap) (length rows)) rows
           \<and> out = (if int (length rows) \<le> cap then rows else take (nat cap) rows)
           \<and> length out = min (nat cap) (length rows)
           \<and> int (length out) \<le> cap
           \<and> length out \<le> length rows
           \<and> prefix out rows"
  using assms by (auto simp: limitSampleData_def take_is_prefix min_def)

theorem limitSampleData_bounded_prefix_witness:
  "(0::int) \<le> 2
   \<and> limitSampleData [[''a''], [''b''], [''c'']] 2 = Inr [[''a''], [''b'']]
   \<and> limitSampleData [[''a''], [''b'']] 2 = Inr [[''a''], [''b'']]"
  using limitSampleData_bounded_prefix [of 2 "[[''a''], [''b''], [''c'']]"]
    limitSampleData_bounded_prefix [of 2 "[[''a''], [''b'']]"]
  by (simp add: limitSampleData_def)

text \<open>
  C7. For every index \<open>i \<ge> 0\<close>, \<open>columnLetterFromIndex i\<close> is the column name of the
  spreadsheet convention for 0-based index \<open>i\<close>: a non-empty word over A to Z whose
  bijective base-26 numeral is \<open>i + 1\<close>, and the only such word; in particular
  0, 1, 25, 26, 27 give A, B, Z, AA, AB. For every count \<open>n \<ge> 0\<close>,
  \<open>generateColumnLetters n\<close> returns the labels of the indices \<open>0, ..., n - 1\<close> in order.
\<close>

theorem columnLetterFromIndex_bijective_base26:
  assumes "0 \<le> i" and "0 \<le> n"
  shows "columnLetterFromIndex i \<noteq> []
       \<and> list_all is_column_letter (columnLetterFromIndex i)
       \<and> column_number (columnLetterFromIndex i) = nat i + 1
       \<and> (\<forall>name. list_all is_column_letter name \<and> column_number name = nat i + 1
             \<longrightarrow> name = columnLetterFromIndex i)
       \<and> generateColumnLetters n = Inr (map (\<lambda>k. columnLetterFromIndex (int k)) [0..<nat n])
       \<and> columnLetterFromIndex 0 = ''A'' \<and> columnLetterFromIndex 1 = ''B''
       \<and> columnLetterFromIndex 25 = ''Z'' \<and> columnLetterFromIndex 26 = ''AA''
       \<and> columnLetterFromIndex 27 = ''AB''"
proof -
  have num: "column_number (columnLetterFromIndex i) = nat i + 1"
    using assms(1) by (simp add: columnLetterFromIndex_number nat_add_distrib)
  have uniq: "\<forall>name. list_all is_column_letter name \<and> column_number name = nat i + 1
             \<longrightarrow> name = columnLetterFromIndex i"
    using column_number_inj [OF _ columnLetterFromIndex_letters [of i]] num by simp
  have vals: "columnLetterFromIndex 0 = ''A''" "columnLetterFromIndex 1 = ''B''"
    "columnLetterFromIndex 25 = ''Z''" "columnLetterFromIndex 26 = ''AA''"
    "columnLetterFromIndex 27 = ''AB''"
    by code_simp+
  show ?thesis
    using columnLetterFromIndex_nonempty [OF assms(1)] columnLetterFromIndex_letters [of i]
      num uniq generateColumnLetters_eq [OF assms(2)] vals
    by blast
qed

theorem columnLetterFromIndex_bijective_base26_witness:
  "(0::int) \<le> 701 \<and> (0::int) \<le> 3
   \<and> column_number ''ZZ'' = 702
   \<and> columnLetterFromIndex 701 = ''ZZ''
   \<and> generateColumnLetters 3 = Inr [''A'', ''B'', ''C'']"
proof -
  have h: "(0::int) \<le> 701" "(0::int) \<le> 3" by simp_all
  note t = columnLetterFromIndex_bijective_base26 [OF h]
  have zz: "list_all is_column_letter ''ZZ''" "column_number ''ZZ'' = nat 701 + 1"
    by code_simp+
  from t have "\<forall>name. list_all is_column_letter name \<and> column_number name = nat 701 + 1
      \<longrightarrow> name = columnLetterFromIndex 701"
    by blast
  with zz have a: "columnLetterFromIndex 701 = ''ZZ''" by metis
  have m: "map (\<lambda>k. columnLetterFromIndex (int k)) [0..<nat 3] = [''A'', ''B'', ''C'']"
    by code_simp
  from t have "generateColumnLetters 3 = Inr (map (\<lambda>k. columnLetterFromIndex (int k)) [0..<nat 3])"
    by blast
  with m have b: "generateColumnLetters 3 = Inr [''A'', ''B'', ''C'']" by simp
  from zz(2) have c: "column_number ''ZZ'' = 702" by simp
  show ?thesis using h a b c by simp
qed

text \<open>
  C8 as stated fails: with a negative \<open>MaxSampleRows\<close> the call panics in
  \<open>limitSampleData\<close> and returns no prompt.
\<close>

theorem GenerateExaMCPPromptWithConfig_negative_cap_panics:
  "GenerateExaMCPPromptWithConfig rejecting_env example_range ''sum the ages'' negative_cap_config
     = Inl (SliceBoundsOutOfRange (- 1))"
  by code_simp

text \<open>
  C8, amended. For every structure, user requirement and configuration whose
  \<open>MaxSampleRows\<close> is not negative, and every template engine,
  \<open>GenerateExaMCPPromptWithConfig\<close> returns a prompt string. When the selected template
  fails to parse, or parses and fails to execute, the result is the fallback prompt for
  that error; and every fallback prompt contains the sheet name, the range address, the
  header names joined by \<^verbatim>\<open>", "\<close> and the user requirement.
\<close>

theorem GenerateExaMCPPromptWithConfig_total_with_fallback:
  assumes "0 \<le> MaxSampleRows config"
  shows "(\<exists>prompt. GenerateExaMCPPromptWithConfig env structure userRequirement config = Inr prompt)
     \<and> (\<forall>err. Parse env (getPromptTemplate env config) = Inl err \<longrightarrow>
            GenerateExaMCPPromptWithConfig env structure userRequirement config
              = Inr (fallbackPrompt structure userRequirement config err))
     \<and> (\<forall>tmpl err. Parse env (getPromptTemplate env config) = Inr tmpl
            \<and> Execute env tmpl
                 (template_data env structure userRequirement config
                    (take (nat (MaxSampleRows config)) (SampleData structure))
                    (map (\<lambda>k. columnLetterFromIndex (int k)) [0..<length (Headers structure)]))
                = Inl err \<longrightarrow>
            GenerateExaMCPPromptWithConfig env structure userRequirement config
              = Inr (fallbackPrompt structure userRequirement config err))
     \<and> (\<forall>err. sublist (SheetName structure) (fallbackPrompt structure userRequirement config err)
            \<and> sublist (RangeAddress structure) (fallbackPrompt structure userRequirement config err)
            \<and> sublist (Join (Headers structure) '', '')
                 (fallbackPrompt structure userRequirement config err)
            \<and> sublist userRequirement (fallbackPrompt structure userRequirement config err))"
proof -
  note e = GenerateExaMCPPromptWithConfig_nonneg [OF assms]
  have a: "\<exists>prompt. GenerateExaMCPPromptWithConfig env structure userRequirement config = Inr prompt"
    unfolding e by blast
  have b: "\<forall>err. Parse env (getPromptTemplate env config) = Inl err \<longrightarrow>
            GenerateExaMCPPromptWithConfig env structure userRequirement config
              = Inr (fallbackPrompt structure userRequirement config err)"
    unfolding e by simp
  have c: "\<forall>tmpl err. Parse env (getPromptTemplate env config) = Inr tmpl
            \<and> Execute env tmpl
                 (template_data env structure userRequirement config
                    (take (nat (MaxSampleRows config)) (SampleData structure))
                    (map (\<lambda>k. columnLetterFromIndex (int k)) [0..<length (Headers structure)]))
                = Inl err \<longrightarrow>
            GenerateExaMCPPromptWithConfig env structure userRequirement config
              = Inr (fallbackPrompt structure userRequirement config err)"
    unfolding e by simp
  show ?thesis
    using a b c fallbackPrompt_SheetName fallbackPrompt_RangeAddress fallbackPrompt_Headers
      fallbackPrompt_userRequirement
    by blast
qed

theorem GenerateExaMCPPromptWithConfig_total_with_fallback_witness:
  "0 \<le> MaxSampleRows DefaultPromptConfig
   \<and> Parse rejecting_env (getPromptTemplate rejecting_env DefaultPromptConfig)
       = Inl ''template: mcp_prompt:19: function add not defined''
   \<and> GenerateExaMCPPromptWithConfig rejecting_env example_range ''sum the ages'' DefaultPromptConfig
       = Inr (fallbackPrompt example_range ''sum the ages'' DefaultPromptConfig
                ''template: mcp_prompt:19: function add not defined'')
   \<and> Parse execute_error_env (getPromptTemplate execute_error_env DefaultPromptConfig) = Inr ()
   \<and> GenerateExaMCPPromptWithConfig execute_error_env example_range ''sum the ages''
         DefaultPromptConfig
       = Inr (fallbackPrompt example_range ''sum the ages'' DefaultPromptConfig
                ''template: mcp_prompt: error calling join'')
   \<and> sublist ''Sheet1''
         (fallbackPrompt example_range ''sum the ages'' DefaultPromptConfig
            ''template: mcp_prompt:19: function add not defined'')
   \<and> sublist ''Name, Age''
         (fallbackPrompt example_range ''sum the ages'' DefaultPromptConfig
            ''template: mcp_prompt:19: function add not defined'')"
proof -
  have h: "0 \<le> MaxSampleRows DefaultPromptConfig"
    by (simp add: DefaultPromptConfig_def)
  note t1 = GenerateExaMCPPromptWithConfig_total_with_fallback
    [OF h, of rejecting_env example_range "''sum the ages''"]
  note t2 = GenerateExaMCPPromptWithConfig_total_with_fallback
    [OF h, of execute_error_env example_range "''sum the ages''"]
  have p1: "Parse rejecting_env (getPromptTemplate rejecting_env DefaultPromptConfig)
       = Inl ''template: mcp_prompt:19: function add not defined''"
    by (simp add: rejecting_env_def)
  have r1: "GenerateExaMCPPromptWithConfig rejecting_env example_range ''sum the ages''
         DefaultPromptConfig
       = Inr (fallbackPrompt example_range ''sum the ages'' DefaultPromptConfig
                ''template: mcp_prompt:19: function add not defined'')"
    using t1 p1 by blast
  have p2: "Parse execute_error_env (getPromptTemplate execute_error_env DefaultPromptConfig)
       = Inr ()"
    by (simp add: execute_error_env_def)
  have x2: "Execute execute_error_env () d = Inl ''template: mcp_prompt: error calling join''"
    for d
    by (simp add: execute_error_env_def)
  have r2: "GenerateExaMCPPromptWithConfig execute_error_env example_range ''sum the ages''
         DefaultPromptConfig
       = Inr (fallbackPrompt example_range ''sum the ages'' DefaultPromptConfig
                ''template: mcp_prompt: error calling join'')"
    using t2 p2 x2 by blast
  have n: "SheetName example_range = ''Sheet1''"
    "Join (Headers example_range) '', '' = ''Name, Age''"
    by (simp_all add: example_range_def)
  have s: "sublist (SheetName example_range)
         (fallbackPrompt example_range ''sum the ages'' DefaultPromptConfig
            ''template: mcp_prompt:19: function add not defined'')"
    "sublist (Join (Headers example_range) '', '')
         (fallbackPrompt example_range ''sum the ages'' DefaultPromptConfig
            ''template: mcp_prompt:19: function add not defined'')"
    using t1 by blast+
  show ?thesis
    using h p1 r1 p2 r2 s unfolding n by blast
qed

text \<open>
  C9. The result of \<open>classifyUserRequirement\<close> depends on the order in which the Go
  runtime iterates over the maps. On the requirement \<^verbatim>\<open>chart filter sum\<close> the types
  Reporting and DataProcessing both score 1: iterating in the order of the map literals
  gives the primary type Reporting and the features Charts, Calculations; iterating in the
  reverse order gives the primary type DataProcessing and the features Calculations,
  Charts. Both orders are admissible, so two runs on the same input can differ.
\<close>

theorem classifyUserRequirement_depends_on_map_order:
  "valid_orders literal_order \<and> valid_orders reverse_order
   \<and> PrimaryType (classifyUserRequirement literal_order ascii_ToLower ''chart filter sum'' example_range)
        = ''Reporting''
   \<and> PrimaryType (classifyUserRequirement reverse_order ascii_ToLower ''chart filter sum'' example_range)
        = ''DataProcessing''
   \<and> SecondaryType (classifyUserRequirement literal_order ascii_ToLower ''chart filter sum'' example_range)
        = ''DataProcessing''
   \<and> SecondaryType (classifyUserRequirement reverse_order ascii_ToLower ''chart filter sum'' example_range)
        = ''Reporting''
   \<and> Features (classifyUserRequirement literal_order ascii_ToLower ''chart filter sum'' example_range)
        = [''Charts'', ''Calculations'']
   \<and> Features (classifyUserRequirement reverse_order ascii_ToLower ''chart filter sum'' example_range)
        = [''Calculations'', ''Charts'']"
  by code_simp

text \<open>
  C10. For every requirement string (and every lower-casing function standing for
  \<^verbatim>\<open>strings.ToLower\<close>), \<open>extractKeywords\<close> returns at most 10 keywords, without
  duplicates, and every returned keyword occurs as a contiguous substring of the
  lower-cased requirement.
\<close>

theorem extractKeywords_bounded_faithful:
  "length (extractKeywords ToLower requirement) \<le> 10
   \<and> distinct (extractKeywords ToLower requirement)
   \<and> list_all (\<lambda>kw. Contains (ToLower requirement) kw \<and> sublist kw (ToLower requirement))
        (extractKeywords ToLower requirement)"
proof -
  have "\<forall>kw \<in> set (extractKeywords ToLower requirement).
          Contains (ToLower requirement) kw \<and> sublist kw (ToLower requirement)"
    using extractKeywords_set [of ToLower requirement] unfolding Contains_def by blast
  then have "list_all (\<lambda>kw. Contains (ToLower requirement) kw \<and> sublist kw (ToLower requirement))
        (extractKeywords ToLower requirement)"
    unfolding list_all_iff .
  then show ?thesis
    using extractKeywords_length [of ToLower requirement]
      extractKeywords_distinct [of ToLower requirement] by blast
qed

end
